theory Spec2Isabelle
  imports Complex_Main "HOL-Library.Word" "HOL-Library.Multiset"
    "HOL-Library.Product_Lexorder"
begin

section \<open>JavaScript strings\<close>

text \<open>
  A JavaScript string is a sequence of UTF-16 code units. The front end reads the text of
  its input fields as such strings and works on them with \<open>trim\<close>, \<open>split\<close>,
  \<open>parseInt\<close> and \<open>parseFloat\<close>; those built-ins are modelled here after ECMA-262.
  \<open>str\<close> writes an ASCII literal as a JavaScript string.
\<close>

type_synonym jsstring = "16 word list"

definition str :: "string \<Rightarrow> jsstring" where
  "str s = map of_char s"

text \<open>
  The code units that \<open>String.prototype.trim\<close>, \<open>parseInt\<close> and \<open>parseFloat\<close>
  strip: ECMA-262's WhiteSpace and LineTerminator (TAB, LF, VT, FF, CR, SP, NBSP, U+1680,
  U+2000..U+200A, LS, PS, U+202F, U+205F, U+3000, U+FEFF).
\<close>

definition isWhiteSpace :: "16 word \<Rightarrow> bool" where
  "isWhiteSpace c = (c \<in> set [0x0009, 0x000A, 0x000B, 0x000C, 0x000D, 0x0020, 0x00A0, 0x1680,
     0x2000, 0x2001, 0x2002, 0x2003, 0x2004, 0x2005, 0x2006, 0x2007, 0x2008, 0x2009, 0x200A,
     0x2028, 0x2029, 0x202F, 0x205F, 0x3000, 0xFEFF])"

definition trimStart :: "jsstring \<Rightarrow> jsstring" where
  "trimStart s = dropWhile isWhiteSpace s"

definition trim :: "jsstring \<Rightarrow> jsstring" where
  "trim s = rev (dropWhile isWhiteSpace (rev (dropWhile isWhiteSpace s)))"

text \<open>
  \<open>s.split(sep)\<close> for a separator of one code unit: the pieces between the separators, in
  order; the empty string splits into one empty piece.
\<close>

fun split :: "16 word \<Rightarrow> jsstring \<Rightarrow> jsstring list" where
  "split sep [] = [[]]"
| "split sep (c # cs) =
     (if c = sep then [] # split sep cs
      else (case split sep cs of [] \<Rightarrow> [[c]] | w # ws \<Rightarrow> (c # w) # ws))"

definition comma :: "16 word" where
  "comma = 0x002C"

text \<open>A string is truthy when it is not empty.\<close>

definition truthy_string :: "jsstring \<Rightarrow> bool" where
  "truthy_string s = (s \<noteq> [])"

section \<open>JavaScript numbers\<close>

text \<open>
  A Number is an IEEE 754 binary64 value: NaN, an infinity, or a finite value, kept here as
  the rational it denotes. The two zeros are one value \<open>Num 0\<close>: the front end only adds,
  multiplies and tests numbers for truthiness, which does not tell them apart.
  \<open>to_double\<close> is the conversion of a real value to the nearest Number (round to nearest,
  ties to even; subnormals below \<open>2^-1022\<close>; overflow to an infinity).
\<close>

datatype number = NaN | Num rat | PosInf | NegInf

definition pow2 :: "int \<Rightarrow> rat" where
  "pow2 k = (if 0 \<le> k then 2 ^ nat k else 1 / 2 ^ nat (- k))"

definition pow10 :: "int \<Rightarrow> rat" where
  "pow10 k = (if 0 \<le> k then 10 ^ nat k else 1 / 10 ^ nat (- k))"

text \<open>
  \<open>ilog2 n\<close> is the position of the highest set bit of a positive integer, and
  \<open>floor_log2 a\<close> the binary exponent of a positive rational: the quotient of two
  integers with highest bits \<open>i\<close> and \<open>j\<close> lies between \<open>2^(i-j-1)\<close> and
  \<open>2^(i-j+1)\<close>, so one comparison settles it.
\<close>

function ilog2 :: "int \<Rightarrow> int" where
  "ilog2 n = (if n \<le> 1 then 0 else 1 + ilog2 (n div 2))"
  by pat_completeness auto
termination
  by (relation "measure nat") auto

declare ilog2.simps [simp del]

definition floor_log2 :: "rat \<Rightarrow> int" where
  "floor_log2 a =
     (let k = ilog2 (fst (quotient_of a)) - ilog2 (snd (quotient_of a))
      in if pow2 k \<le> a then k else k - 1)"

definition round_half_even :: "rat \<Rightarrow> int" where
  "round_half_even m =
     (let f = \<lfloor>m\<rfloor>; d = m - of_int f
      in if d < 1 / 2 then f else if 1 / 2 < d then f + 1 else if even f then f else f + 1)"

definition to_double :: "rat \<Rightarrow> number" where
  "to_double q =
     (if q = 0 then Num 0
      else
        let a = \<bar>q\<bar>;
            e = max (floor_log2 a) (- 1022);
            ulp = pow2 (e - 52);
            v = of_int (round_half_even (a / ulp)) * ulp
        in if pow2 1024 \<le> v then (if 0 < q then PosInf else NegInf)
           else Num (if 0 < q then v else - v))"

definition js_negate :: "number \<Rightarrow> number" where
  "js_negate x = (case x of NaN \<Rightarrow> NaN | Num r \<Rightarrow> Num (- r) | PosInf \<Rightarrow> NegInf | NegInf \<Rightarrow> PosInf)"

text \<open>Number addition and multiplication (ECMA-262 Number::add, Number::multiply).\<close>

fun js_add :: "number \<Rightarrow> number \<Rightarrow> number" where
  "js_add NaN y = NaN"
| "js_add x NaN = NaN"
| "js_add PosInf NegInf = NaN"
| "js_add NegInf PosInf = NaN"
| "js_add PosInf y = PosInf"
| "js_add NegInf y = NegInf"
| "js_add x PosInf = PosInf"
| "js_add x NegInf = NegInf"
| "js_add (Num a) (Num b) = to_double (a + b)"

fun js_mul :: "number \<Rightarrow> number \<Rightarrow> number" where
  "js_mul NaN y = NaN"
| "js_mul x NaN = NaN"
| "js_mul PosInf PosInf = PosInf"
| "js_mul PosInf NegInf = NegInf"
| "js_mul NegInf PosInf = NegInf"
| "js_mul NegInf NegInf = PosInf"
| "js_mul PosInf (Num b) = (if b = 0 then NaN else if 0 < b then PosInf else NegInf)"
| "js_mul NegInf (Num b) = (if b = 0 then NaN else if 0 < b then NegInf else PosInf)"
| "js_mul (Num a) PosInf = (if a = 0 then NaN else if 0 < a then PosInf else NegInf)"
| "js_mul (Num a) NegInf = (if a = 0 then NaN else if 0 < a then NegInf else PosInf)"
| "js_mul (Num a) (Num b) = to_double (a * b)"

text \<open>A number is falsy when it is a zero or NaN; \<open>x || d\<close> is \<open>x\<close> when \<open>x\<close> is truthy.\<close>

definition truthy_number :: "number \<Rightarrow> bool" where
  "truthy_number x = (x \<noteq> NaN \<and> x \<noteq> Num 0)"

definition or_else :: "number \<Rightarrow> number \<Rightarrow> number" where
  "or_else x d = (if truthy_number x then x else d)"

subsection \<open>parseInt and parseFloat\<close>

definition isDigit :: "16 word \<Rightarrow> bool" where
  "isDigit c = (0x0030 \<le> c \<and> c \<le> 0x0039)"

definition isHexDigit :: "16 word \<Rightarrow> bool" where
  "isHexDigit c = (isDigit c \<or> (0x0061 \<le> c \<and> c \<le> 0x0066) \<or> (0x0041 \<le> c \<and> c \<le> 0x0046))"

definition digitValue :: "16 word \<Rightarrow> int" where
  "digitValue c =
     (if isDigit c then uint c - 48
      else if 0x0061 \<le> c \<and> c \<le> 0x0066 then uint c - 87
      else uint c - 55)"

definition digitsValue :: "int \<Rightarrow> jsstring \<Rightarrow> int" where
  "digitsValue radix ds = foldl (\<lambda>acc c. radix * acc + digitValue c) 0 ds"

definition minusSign :: "16 word" where
  "minusSign = 0x002D"

definition plusSign :: "16 word" where
  "plusSign = 0x002B"

text \<open>
  The sign a numeric prefix starts with, and the rest of the string: \<open>True\<close> for a leading
  \<open>-\<close>; a leading \<open>+\<close> is dropped too.
\<close>

definition stripSign :: "jsstring \<Rightarrow> bool \<times> jsstring" where
  "stripSign s =
     (case s of
        [] \<Rightarrow> (False, [])
      | c # r \<Rightarrow> if c = minusSign then (True, r) else if c = plusSign then (False, r) else (False, s))"

text \<open>
  \<open>parseInt(s)\<close> with no radix: leading white space is dropped, then a sign, then a
  \<open>0x\<close> or \<open>0X\<close> prefix switches to radix 16; the longest run of digits of the radix is
  the value, and no digit at all gives NaN. (For more than 20 significant decimal digits
  ECMA-262 lets an implementation replace the later digits by zeros; the model keeps them.)
\<close>

definition stripHexPrefix :: "jsstring \<Rightarrow> int \<times> jsstring" where
  "stripHexPrefix s =
     (case s of
        c # x # r \<Rightarrow> if c = 0x0030 \<and> (x = 0x0078 \<or> x = 0x0058) then (16, r) else (10, s)
      | _ \<Rightarrow> (10, s))"

definition parseInt :: "jsstring \<Rightarrow> number" where
  "parseInt s =
     (let (neg, t) = stripSign (trimStart s);
          (radix, u) = stripHexPrefix t;
          z = takeWhile (if radix = 16 then isHexDigit else isDigit) u
      in if z = [] then NaN
         else let m = to_double (of_int (digitsValue radix z))
              in if neg then js_negate m else m)"

text \<open>
  \<open>parseFloat(s)\<close>: leading white space is dropped, and the longest prefix that is a
  StrDecimalLiteral is the value: a sign, then \<open>Infinity\<close>, or digits with an optional
  fraction and an optional exponent (\<open>1\<close>, \<open>1.\<close>, \<open>1.5\<close>, \<open>.5\<close>, \<open>1e3\<close>,
  \<open>1.5e-3\<close>). An exponent indicator with no digit after it is not part of the prefix.
\<close>

definition exponentPart :: "jsstring \<Rightarrow> int" where
  "exponentPart s =
     (case s of
        [] \<Rightarrow> 0
      | c # r \<Rightarrow>
          if c = 0x0065 \<or> c = 0x0045 then
            (let (neg, t) = stripSign r; ds = takeWhile isDigit t
             in if ds = [] then 0
                else if neg then - digitsValue 10 ds else digitsValue 10 ds)
          else 0)"

definition unsignedDecimal :: "jsstring \<Rightarrow> number option" where
  "unsignedDecimal u =
     (if take 8 u = str ''Infinity'' then Some PosInf
      else
        let ip = takeWhile isDigit u; r1 = dropWhile isDigit u
        in case r1 of
             [] \<Rightarrow> if ip = [] then None else Some (to_double (of_int (digitsValue 10 ip)))
           | c # r2 \<Rightarrow>
               if c = 0x002E then
                 (let fp = takeWhile isDigit r2; r3 = dropWhile isDigit r2
                  in if ip = [] \<and> fp = [] then None
                     else Some (to_double (of_int (digitsValue 10 (ip @ fp))
                                  * pow10 (exponentPart r3 - int (length fp)))))
               else if ip = [] then None
               else Some (to_double (of_int (digitsValue 10 ip) * pow10 (exponentPart r1))))"

definition parseFloat :: "jsstring \<Rightarrow> number" where
  "parseFloat s =
     (let (neg, u) = stripSign (trimStart s)
      in case unsignedDecimal u of
           None \<Rightarrow> NaN
         | Some m \<Rightarrow> if neg then js_negate m else m)"

section \<open>The claim input form (ClaimInput)\<close>

text \<open>
  The component keeps the text of its fields in two pieces of state: \<open>formData\<close> and the
  list \<open>procedures\<close> of procedure rows, every field a string. \<open>handleSubmit\<close> builds the
  claim object from them and passes it to \<open>onSubmit\<close>; the model returns that object.
\<close>

datatype Gender = M | F

record formData =
  claim_id :: jsstring
  patient_name :: jsstring
  patient_dob :: jsstring
  patient_gender :: Gender
  insurance_id :: jsstring
  provider_name :: jsstring
  provider_npi :: jsstring
  provider_specialty :: jsstring
  service_date :: jsstring
  diagnosis_codes :: jsstring

record procedureRow =
  cpt :: jsstring
  modifiers :: jsstring
  units :: jsstring
  charge :: jsstring

record Patient =
  name :: jsstring
  dob :: jsstring
  gender :: Gender
  insurance_id :: jsstring

record Provider =
  name :: jsstring
  npi :: jsstring
  specialty :: jsstring

record ProcedureCode =
  cpt :: jsstring
  modifiers :: "jsstring list"
  units :: number
  charge :: number

record Claim =
  claim_id :: jsstring
  patient :: Patient
  provider :: Provider
  service_date :: jsstring
  diagnosis_codes :: "jsstring list"
  procedure_codes :: "ProcedureCode list"
  total_charge :: number

text \<open>The function mapped over \<open>procedures\<close>: one procedure entry from one row.\<close>

definition toProcedureCode :: "procedureRow \<Rightarrow> ProcedureCode" where
  "toProcedureCode p =
     \<lparr>ProcedureCode.cpt = procedureRow.cpt p,
      ProcedureCode.modifiers =
        (if truthy_string (procedureRow.modifiers p)
         then map trim (split comma (procedureRow.modifiers p)) else []),
      ProcedureCode.units = or_else (parseInt (procedureRow.units p)) (Num 1),
      ProcedureCode.charge = or_else (parseFloat (procedureRow.charge p)) (Num 0)\<rparr>"

definition handleSubmit :: "formData \<Rightarrow> procedureRow list \<Rightarrow> Claim" where
  "handleSubmit fd procedures =
     (let procedureCodes = map toProcedureCode procedures;
          totalCharge =
            foldl (\<lambda>sum p. js_add sum (js_mul (ProcedureCode.charge p) (ProcedureCode.units p)))
              (Num 0) procedureCodes
      in \<lparr>Claim.claim_id = formData.claim_id fd,
          Claim.patient =
            \<lparr>Patient.name = patient_name fd, Patient.dob = patient_dob fd,
             Patient.gender = patient_gender fd,
             Patient.insurance_id = formData.insurance_id fd\<rparr>,
          Claim.provider =
            \<lparr>Provider.name = provider_name fd, Provider.npi = provider_npi fd,
             Provider.specialty = provider_specialty fd\<rparr>,
          Claim.service_date = formData.service_date fd,
          Claim.diagnosis_codes =
            filter truthy_string (map trim (split comma (formData.diagnosis_codes fd))),
          Claim.procedure_codes = procedureCodes,
          Claim.total_charge = totalCharge\<rparr>)"

text \<open>
  What the claims about the form speak of. The sum of a list of numbers is taken from left
  to right, starting from 0, as Number addition is not associative. A text field starts
  with a minus sign when \<open>-\<close> is its first code unit after leading white space. The
  diagnosis field carries the HTML attribute \<open>required\<close>: the browser submits the form
  only when its text is not empty.
\<close>

definition sum_numbers :: "number list \<Rightarrow> number" where
  "sum_numbers xs = foldl js_add (Num 0) xs"

definition is_positive_integer :: "number \<Rightarrow> bool" where
  "is_positive_integer x = (case x of Num r \<Rightarrow> 0 < r \<and> of_int \<lfloor>r\<rfloor> = r | _ \<Rightarrow> False)"

definition is_non_negative :: "number \<Rightarrow> bool" where
  "is_non_negative x = (case x of Num r \<Rightarrow> 0 \<le> r | PosInf \<Rightarrow> True | _ \<Rightarrow> False)"

definition startsWithMinus :: "jsstring \<Rightarrow> bool" where
  "startsWithMinus s = (case trimStart s of [] \<Rightarrow> False | c # _ \<Rightarrow> c = minusSign)"

definition required_filled :: "jsstring \<Rightarrow> bool" where
  "required_filled s = (s \<noteq> [])"

text \<open>
  The units and the charge field are \<open><input type="number" required>\<close>, the first with
  \<open>min="1"\<close> and the second with \<open>min="0"\<close> and \<open>step="0.01"\<close>, in a form without
  \<open>noValidate\<close>: the browser calls \<open>handleSubmit\<close> only when every input is valid
  (HTML Standard, constraint validation). The value of a number input is a valid
  floating-point number of HTML: an optional \<open>-\<close>, then digits, or a point and digits, or
  both, then an optional exponent of \<open>e\<close> or \<open>E\<close>, an optional sign and digits; no
  white space, no leading \<open>+\<close>, no point without a digit after it. Its number is what
  \<open>parseFloat\<close> reads from such a string, and a string whose number is not finite has
  none.
\<close>

definition validExponent :: "jsstring \<Rightarrow> bool" where
  "validExponent t =
     (case t of
        [] \<Rightarrow> True
      | c # r \<Rightarrow>
          (c = 0x0065 \<or> c = 0x0045) \<and>
          (let u = snd (stripSign r) in u \<noteq> [] \<and> list_all isDigit u))"

definition validFloatingPoint :: "jsstring \<Rightarrow> bool" where
  "validFloatingPoint s =
     (let s1 = (case s of [] \<Rightarrow> [] | c # r \<Rightarrow> if c = minusSign then r else s);
          ip = takeWhile isDigit s1; r1 = dropWhile isDigit s1
      in case r1 of
           [] \<Rightarrow> ip \<noteq> []
         | c # r \<Rightarrow>
             if c = 0x002E then
               takeWhile isDigit r \<noteq> [] \<and> validExponent (dropWhile isDigit r)
             else ip \<noteq> [] \<and> validExponent r1)"

definition numberInputValue :: "jsstring \<Rightarrow> rat option" where
  "numberInputValue s =
     (if validFloatingPoint s
      then (case parseFloat s of Num r \<Rightarrow> Some r | _ \<Rightarrow> None)
      else None)"

text \<open>
  The units input accepts a text whose number is at least 1 (\<open>min\<close>) and a whole number
  (the default step of 1, counted from \<open>min\<close>); the charge input one whose number is at
  least 0. The step of the charge input is left out: it only narrows what that input
  accepts.
\<close>

definition unitsInputAccepts :: "jsstring \<Rightarrow> bool" where
  "unitsInputAccepts s =
     (case numberInputValue s of None \<Rightarrow> False | Some r \<Rightarrow> 1 \<le> r \<and> of_int \<lfloor>r\<rfloor> = r)"

definition chargeInputAccepts :: "jsstring \<Rightarrow> bool" where
  "chargeInputAccepts s = (case numberInputValue s of None \<Rightarrow> False | Some r \<Rightarrow> 0 \<le> r)"

definition is_non_negative_decimal :: "number \<Rightarrow> bool" where
  "is_non_negative_decimal x = (case x of Num r \<Rightarrow> 0 \<le> r | _ \<Rightarrow> False)"

text \<open>
  The exact sum of charge times units over a list of procedure entries, in rational
  arithmetic; a rational is representable when it is a binary64 value, that is, when
  conversion to a Number leaves it as it is; and a list of entries is exactly summable from
  a starting total when all its charges and units are finite and every product and every
  running total, in the order of the entries, is representable.
\<close>

definition is_finite :: "number \<Rightarrow> bool" where
  "is_finite x = (case x of Num r \<Rightarrow> True | _ \<Rightarrow> False)"

definition value_of :: "number \<Rightarrow> rat" where
  "value_of x = (case x of Num r \<Rightarrow> r | _ \<Rightarrow> 0)"

definition exact_sum :: "ProcedureCode list \<Rightarrow> rat" where
  "exact_sum ps =
     sum_list (map (\<lambda>p. value_of (ProcedureCode.charge p) * value_of (ProcedureCode.units p)) ps)"

definition representable :: "rat \<Rightarrow> bool" where
  "representable q = (to_double q = Num q)"

fun exactly_summable :: "rat \<Rightarrow> ProcedureCode list \<Rightarrow> bool" where
  "exactly_summable acc [] = True"
| "exactly_summable acc (p # ps) =
     (is_finite (ProcedureCode.charge p) \<and> is_finite (ProcedureCode.units p) \<and>
      (let a = value_of (ProcedureCode.charge p) * value_of (ProcedureCode.units p)
       in representable a \<and> representable (acc + a) \<and> exactly_summable (acc + a) ps))"

text \<open>
  A sufficient condition on the entries themselves: an entry is whole when its charge and
  its units are finite whole numbers; the absolute sum adds the magnitudes of the products.
\<close>

definition whole_entry :: "ProcedureCode \<Rightarrow> bool" where
  "whole_entry p =
     (is_finite (ProcedureCode.charge p) \<and> is_finite (ProcedureCode.units p) \<and>
      of_int \<lfloor>value_of (ProcedureCode.charge p)\<rfloor> = value_of (ProcedureCode.charge p) \<and>
      of_int \<lfloor>value_of (ProcedureCode.units p)\<rfloor> = value_of (ProcedureCode.units p))"

definition absolute_sum :: "ProcedureCode list \<Rightarrow> rat" where
  "absolute_sum ps =
     sum_list (map (\<lambda>p. \<bar>value_of (ProcedureCode.charge p) * value_of (ProcedureCode.units p)\<bar>) ps)"

text \<open>The two sample claims the component loads (\<open>loadSampleClaim\<close>, \<open>loadInvalidClaim\<close>).\<close>

definition sampleFormData :: formData where
  "sampleFormData =
     \<lparr>formData.claim_id = str ''CLM001'', patient_name = str ''John Doe'',
      patient_dob = str ''1985-05-15'', patient_gender = M,
      formData.insurance_id = str ''XYZ123456789'', provider_name = str ''Dr. Jane Smith'',
      provider_npi = str ''1234567890'', provider_specialty = str ''Family Medicine'',
      formData.service_date = str ''2025-01-15'', formData.diagnosis_codes = str ''E11.9''\<rparr>"

definition sampleProcedures :: "procedureRow list" where
  "sampleProcedures =
     [\<lparr>procedureRow.cpt = str ''99213'', procedureRow.modifiers = [],
       procedureRow.units = str ''1'', procedureRow.charge = str ''135''\<rparr>]"

definition invalidProcedures :: "procedureRow list" where
  "invalidProcedures =
     [\<lparr>procedureRow.cpt = str ''99205'', procedureRow.modifiers = [],
       procedureRow.units = str ''1'', procedureRow.charge = str ''500''\<rparr>,
      \<lparr>procedureRow.cpt = str ''99213'', procedureRow.modifiers = [],
       procedureRow.units = str ''1'', procedureRow.charge = str ''135''\<rparr>]"

text \<open>
  Three more lists of rows: one row of 3 units at 0.1, which is not a binary64 value; two
  rows of whole numbers; and one row whose units text is a 1, 309 zeros and the exponent
  \<open>e-309\<close>, which denotes the number 1.
\<close>

definition overflowUnits :: jsstring where
  "overflowUnits = str ''1'' @ replicate 309 0x0030 @ str ''e-309''"

definition threeDimes :: "procedureRow list" where
  "threeDimes =
     [\<lparr>procedureRow.cpt = str ''99213'', procedureRow.modifiers = [],
       procedureRow.units = str ''3'', procedureRow.charge = str ''0.1''\<rparr>]"

definition wholeRows :: "procedureRow list" where
  "wholeRows =
     [\<lparr>procedureRow.cpt = str ''99213'', procedureRow.modifiers = [],
       procedureRow.units = str ''3'', procedureRow.charge = str ''135''\<rparr>,
      \<lparr>procedureRow.cpt = str ''99205'', procedureRow.modifiers = [],
       procedureRow.units = str ''2'', procedureRow.charge = str ''500''\<rparr>]"

definition overflowRows :: "procedureRow list" where
  "overflowRows =
     [\<lparr>procedureRow.cpt = str ''99213'', procedureRow.modifiers = [],
       procedureRow.units = overflowUnits, procedureRow.charge = str ''135''\<rparr>]"

section \<open>The page component (Home) and the chat widget (ChatInterface)\<close>

text \<open>
  Both handlers await a call of the API client (\<open>validateClaim\<close>, \<open>askQuestion\<close> of
  \<open>lib/api\<close>), which is taken as a parameter: the function gives what the awaited
  promise settles to, a value or a thrown value. A thrown value is an \<open>Error\<close> object with
  its message, or anything else. The component state is a record of the \<open>useState\<close>
  cells; a handler returns the state after all its updates.
\<close>

datatype thrown = ErrorInstance jsstring | NotAnError

datatype 'a settled = Fulfilled 'a | RejectedWith thrown

record 'r Home =
  claim :: "Claim option"
  validationResult :: "'r option"
  isLoading :: bool
  error :: "jsstring option"

definition handleValidate ::
    "(Claim \<Rightarrow> 'r settled) \<Rightarrow> Claim \<Rightarrow> 'r Home \<Rightarrow> 'r Home" where
  "handleValidate validateClaim claimData st =
     (let st1 = st\<lparr>Home.isLoading := True, Home.error := None\<rparr>;
          st2 =
            (case validateClaim claimData of
               Fulfilled result \<Rightarrow>
                 st1\<lparr>claim := Some claimData, validationResult := Some result\<rparr>
             | RejectedWith err \<Rightarrow>
                 st1\<lparr>Home.error :=
                       Some (case err of ErrorInstance message \<Rightarrow> message
                             | NotAnError \<Rightarrow> str ''Validation failed''),
                     validationResult := None\<rparr>)
      in st2\<lparr>Home.isLoading := False\<rparr>)"

record Message =
  question :: jsstring
  answer :: jsstring

record AskResponse =
  answer :: jsstring

record ChatInterface =
  question :: jsstring
  conversation :: "Message list"
  isLoading :: bool
  error :: "jsstring option"

text \<open>
  \<open>handleAsk\<close> returns the new state and the requests it issued, each the pair of
  arguments of one \<open>askQuestion\<close> call.
\<close>

definition handleAsk ::
    "(jsstring \<Rightarrow> jsstring \<Rightarrow> AskResponse settled) \<Rightarrow> jsstring \<Rightarrow> ChatInterface
      \<Rightarrow> ChatInterface \<times> (jsstring \<times> jsstring) list" where
  "handleAsk askQuestion claimId st =
     (if \<not> truthy_string (trim (ChatInterface.question st)) then (st, [])
      else
        let st1 = st\<lparr>ChatInterface.isLoading := True, ChatInterface.error := None\<rparr>;
            st2 =
              (case askQuestion claimId (ChatInterface.question st) of
                 Fulfilled response \<Rightarrow>
                   st1\<lparr>conversation :=
                         conversation st @
                           [\<lparr>Message.question = ChatInterface.question st,
                             Message.answer = AskResponse.answer response\<rparr>],
                       ChatInterface.question := []\<rparr>
               | RejectedWith err \<Rightarrow>
                   st1\<lparr>ChatInterface.error :=
                         Some (case err of ErrorInstance message \<Rightarrow> message
                               | NotAnError \<Rightarrow> str ''Failed to get answer'')\<rparr>)
        in (st2\<lparr>ChatInterface.isLoading := False\<rparr>,
            [(claimId, ChatInterface.question st)]))"

definition whitespace_only :: "jsstring \<Rightarrow> bool" where
  "whitespace_only s = list_all isWhiteSpace s"

text \<open>Sample states: a page that shows an earlier result, and a chat with one exchange.\<close>

definition staleHome :: "jsstring Home" where
  "staleHome =
     \<lparr>claim = Some (handleSubmit sampleFormData sampleProcedures),
      validationResult = Some (str ''previous result''),
      Home.isLoading = False, Home.error = None\<rparr>"

definition chatState :: "jsstring \<Rightarrow> ChatInterface" where
  "chatState q =
     \<lparr>ChatInterface.question = q,
      conversation =
        [\<lparr>Message.question = str ''Why was this claim flagged?'',
          Message.answer = str ''Two issues were found.''\<rparr>],
      ChatInterface.isLoading = False, ChatInterface.error = None\<rparr>"

section \<open>The validation core, modelled from the specification\<close>

text \<open>
  The orchestrator, its validators and the conversation service are the back end; their
  code is not among the front-end sources above, so the definitions of this section follow
  the specification's words (sections 3, 4.2 and 4.4) and each says so. Two things the
  specification mentions are left out: the explanation service, which only fills in the
  suggested fixes and changes neither the order of the findings nor score and status, and
  the "deduplication" of the overview, for which section 4.2 gives no rule.
\<close>

text \<open>Modelled from the spec: the severity of a finding, "ordered: low < medium < high <
  critical" (the back end's finding model is missing).\<close>

datatype Severity = Low | Medium | High | Critical

text \<open>Modelled from the spec: a finding of section 3 (the back end's finding model is
  missing); the validator's identity is its name.\<close>

record Finding =
  agent_name :: string
  issue_type :: string
  severity :: Severity
  description :: string
  cost_impact :: "rat option"
  confidence_score :: rat
  suggested_fix :: "string option"

text \<open>Modelled from the spec: the overall status of section 4.2 (the back end's result
  model is missing).\<close>

datatype Status = Passed | Flagged | Rejected

text \<open>Modelled from the spec: the validation result of section 3 (the back end's result
  model is missing); the processing duration, a wall-clock reading, is left out.\<close>

record ValidationResult =
  result_claim_id :: jsstring
  overall_status :: Status
  risk_score :: int
  issues :: "Finding list"
  total_cost_impact :: rat

text \<open>Modelled from the spec: "severity weights {critical:40, high:25, medium:12, low:5}"
  (the orchestrator's scoring code is missing).\<close>

fun severity_weight :: "Severity \<Rightarrow> int" where
  "severity_weight Critical = 40"
| "severity_weight High = 25"
| "severity_weight Medium = 12"
| "severity_weight Low = 5"

text \<open>Modelled from the spec: "score = min(100, sum of weights across findings, plus a
  saturation term for count of findings beyond the third finding)" (the orchestrator's
  scoring code is missing). The spec names the saturation term and gives no formula for it:
  it is the parameter \<open>saturation\<close>, a function of the number of findings beyond the
  third.\<close>

definition riskScore :: "(nat \<Rightarrow> nat) \<Rightarrow> Finding list \<Rightarrow> int" where
  "riskScore saturation fs =
     min 100 (sum_list (map (\<lambda>f. severity_weight (severity f)) fs)
              + int (saturation (length fs - 3)))"

text \<open>Modelled from the spec: "rejected if any critical finding or score \<ge> 90; flagged if
  score \<ge> 20 (and not rejected); passed otherwise" (the orchestrator's status code is
  missing).\<close>

definition overallStatus :: "int \<Rightarrow> Finding list \<Rightarrow> Status" where
  "overallStatus score fs =
     (if list_ex (\<lambda>f. severity f = Critical) fs \<or> 90 \<le> score then Rejected
      else if 20 \<le> score then Flagged
      else Passed)"

text \<open>Modelled from the spec: "Total cost impact = sum of non-null per-finding cost
  impacts" (the orchestrator's aggregation code is missing).\<close>

definition totalCostImpact :: "Finding list \<Rightarrow> rat" where
  "totalCostImpact fs = sum_list (map (\<lambda>f. case cost_impact f of None \<Rightarrow> 0 | Some c \<Rightarrow> c) fs)"

text \<open>Modelled from the spec: a validator, "evaluate(claim, codeStore) \<rightarrow> list<Finding>"
  (the validators' code is missing). The read-only code store is part of the function;
  \<open>None\<close> is a validator that threw or timed out.\<close>

type_synonym validator = "Claim \<Rightarrow> Finding list option"

text \<open>Modelled from the spec: the fan-out of section 4.2 and the design note "tag each
  finding with its producing validator's fixed registration index at dispatch time" (the
  orchestrator's code is missing). \<open>dispatch\<close> pairs every validator's output with its
  registration index, in registration order; the outputs reach the fan-in point in any
  order, which is a permutation of that list.\<close>

definition dispatch :: "validator list \<Rightarrow> Claim \<Rightarrow> (nat \<times> Finding list option) list" where
  "dispatch validators c = zip [0..<length validators] (map (\<lambda>v. v c) validators)"

text \<open>Modelled from the spec: a failed validator "degrades to no findings from that
  validator" (the orchestrator's code is missing).\<close>

definition findings_of :: "Finding list option \<Rightarrow> Finding list" where
  "findings_of out = (case out of None \<Rightarrow> [] | Some fs \<Rightarrow> fs)"

text \<open>Modelled from the spec: every finding of one validator's output with its tag, the
  registration index and the position in that output (the orchestrator's code is
  missing).\<close>

definition tagFindings :: "nat \<times> Finding list option \<Rightarrow> ((nat \<times> nat) \<times> Finding) list" where
  "tagFindings arrival =
     map (\<lambda>(j, f). ((fst arrival, j), f)) (enumerate 0 (findings_of (snd arrival)))"

text \<open>Modelled from the spec: the rank that sorts severities in descending order (the
  orchestrator's code is missing).\<close>

fun descending_rank :: "Severity \<Rightarrow> nat" where
  "descending_rank Critical = 0"
| "descending_rank High = 1"
| "descending_rank Medium = 2"
| "descending_rank Low = 3"

text \<open>Modelled from the spec: the sort key "severity descending, ties broken by validator
  registration order, then by appearance order within that validator's own output" (the
  orchestrator's code is missing); triples are compared lexicographically.\<close>

definition sortKey :: "(nat \<times> nat) \<times> Finding \<Rightarrow> nat \<times> nat \<times> nat" where
  "sortKey t = (descending_rank (severity (snd t)), fst (fst t), snd (fst t))"

text \<open>Modelled from the spec: the first component of that sort key, the descending
  severity rank of a tagged finding (the orchestrator's code is missing).\<close>

definition rankOf :: "(nat \<times> nat) \<times> Finding \<Rightarrow> nat" where
  "rankOf t = descending_rank (severity (snd t))"

text \<open>Modelled from the spec: the aggregation of section 4.2, from the outputs in the order
  they completed (the orchestrator's code is missing).\<close>

definition aggregate :: "(nat \<times> Finding list option) list \<Rightarrow> Finding list" where
  "aggregate arrivals = map snd (sort_key sortKey (concat (map tagFindings arrivals)))"

text \<open>Modelled from the spec: the fatal condition "unless all validators fail" (the
  orchestrator's code is missing).\<close>

datatype fatal = AllValidatorsFailed

text \<open>Modelled from the spec: the fan-in of section 4.2, from the outputs in the order they
  completed: aggregation, score, status and total cost impact (the orchestrator's code is
  missing).\<close>

definition fanIn ::
    "(nat \<Rightarrow> nat) \<Rightarrow> jsstring \<Rightarrow> (nat \<times> Finding list option) list \<Rightarrow> fatal + ValidationResult"
  where
  "fanIn saturation cid arrivals =
     (if list_all (\<lambda>a. snd a = None) arrivals then Inl AllValidatorsFailed
      else
        let fs = aggregate arrivals; score = riskScore saturation fs
        in Inr \<lparr>result_claim_id = cid, overall_status = overallStatus score fs,
                risk_score = score, issues = fs, total_cost_impact = totalCostImpact fs\<rparr>)"

text \<open>Modelled from the spec: "validate(claim) \<rightarrow> ValidationResult" of section 4.2, with
  the validators completing in registration order (the orchestrator's code is missing).\<close>

definition validate :: "(nat \<Rightarrow> nat) \<Rightarrow> validator list \<Rightarrow> Claim \<Rightarrow> fatal + ValidationResult" where
  "validate saturation validators c =
     fanIn saturation (Claim.claim_id c) (dispatch validators c)"

subsection \<open>The conversation service\<close>

text \<open>Modelled from the spec: the conversation context of section 3, "claim identifier \<rightarrow>
  (claim snapshot, ValidationResult snapshot)" (the conversation service's code is
  missing).\<close>

record ConversationContext =
  claim_snapshot :: Claim
  result_snapshot :: ValidationResult

type_synonym contextStore = "jsstring \<rightharpoonup> ConversationContext"

text \<open>Modelled from the spec: what changes the context store (section 3): validation of a
  claim id writes its context, superseding an older one; eviction removes it (the
  conversation service's code is missing).\<close>

datatype storeEvent = Validated jsstring ConversationContext | Evicted jsstring

fun applyEvent :: "contextStore \<Rightarrow> storeEvent \<Rightarrow> contextStore" where
  "applyEvent store (Validated cid ctx) = store(cid \<mapsto> ctx)"
| "applyEvent store (Evicted cid) = store(cid := None)"

definition storeAfter :: "storeEvent list \<Rightarrow> contextStore" where
  "storeAfter events = foldl applyEvent Map.empty events"

text \<open>Modelled from the spec: the error taxonomy of section 7 as far as \<open>ask\<close> meets it:
  the context is missing ("not found"), the language-model backend failed, or a generic
  internal error (the conversation service's code is missing).\<close>

datatype askError = NotFound | BackendFailure | InternalError

text \<open>Modelled from the spec: "ask(claimId, question) \<rightarrow> answer" of section 4.4 (the
  conversation service's code is missing). The language-model backend is the parameter
  \<open>llm\<close>; \<open>None\<close> is a backend that failed or timed out.\<close>

definition ask ::
    "contextStore \<Rightarrow> (ConversationContext \<Rightarrow> jsstring \<Rightarrow> jsstring option) \<Rightarrow> jsstring \<Rightarrow> jsstring
      \<Rightarrow> askError + jsstring" where
  "ask store llm claimId q =
     (case store claimId of
        None \<Rightarrow> Inl NotFound
      | Some ctx \<Rightarrow> (case llm ctx q of None \<Rightarrow> Inl BackendFailure | Some a \<Rightarrow> Inr a))"

text \<open>Modelled from the spec: "validation has not yet been run for that id (or its context
  has been evicted)", read off the history of the store: the last event about the id, if
  any, is an eviction (the conversation service's code is missing).\<close>

fun eventId :: "storeEvent \<Rightarrow> jsstring" where
  "eventId (Validated cid ctx) = cid"
| "eventId (Evicted cid) = cid"

fun isEviction :: "storeEvent \<Rightarrow> bool" where
  "isEviction (Validated cid ctx) = False"
| "isEviction (Evicted cid) = True"

definition noContextFor :: "jsstring \<Rightarrow> storeEvent list \<Rightarrow> bool" where
  "noContextFor cid events =
     (case filter (\<lambda>e. eventId e = cid) (rev events) of
        [] \<Rightarrow> True
      | e # _ \<Rightarrow> isEviction e)"

subsection \<open>A sample validation\<close>

text \<open>
  Five validators in registration order (CPT-ICD compatibility, bundling, modifier
  compliance, demographic, cost), of which the second failed, their four findings on the
  sample claim, a saturation term of 5 points for each finding beyond the third, and the
  result the specification's rules give: 25 + 25 + 12 + 5 + 5 = 72.
\<close>

definition mismatchFinding :: Finding where
  "mismatchFinding =
     \<lparr>agent_name = ''CPT-ICD Validator'', issue_type = ''procedure_diagnosis_mismatch'',
      severity = High, description = ''Procedure code mismatch with diagnosis'',
      cost_impact = None, confidence_score = 85 / 100, suggested_fix = None\<rparr>"

definition demographicFinding :: Finding where
  "demographicFinding =
     \<lparr>agent_name = ''Demographic Validator'', issue_type = ''demographic_mismatch'',
      severity = High, description = ''Diagnosis restricted to female patients'',
      cost_impact = None, confidence_score = 95 / 100, suggested_fix = None\<rparr>"

definition modifierFinding :: Finding where
  "modifierFinding =
     \<lparr>agent_name = ''Modifier Validator'', issue_type = ''invalid_modifier'',
      severity = Low, description = ''Modifier not allowed for the procedure code'',
      cost_impact = None, confidence_score = 60 / 100, suggested_fix = None\<rparr>"

definition costFinding :: Finding where
  "costFinding =
     \<lparr>agent_name = ''Cost Analyzer'', issue_type = ''cost_outlier'',
      severity = Medium, description = ''Charge above the reference charge'',
      cost_impact = Some 4000, confidence_score = 70 / 100, suggested_fix = None\<rparr>"

definition sampleValidators :: "validator list" where
  "sampleValidators =
     [\<lambda>c. Some [mismatchFinding], \<lambda>c. None, \<lambda>c. Some [modifierFinding],
      \<lambda>c. Some [demographicFinding], \<lambda>c. Some [costFinding]]"

definition sampleSaturation :: "nat \<Rightarrow> nat" where
  "sampleSaturation n = 5 * n"

definition sampleClaim :: Claim where
  "sampleClaim = handleSubmit sampleFormData sampleProcedures"

definition sampleResult :: ValidationResult where
  "sampleResult =
     \<lparr>result_claim_id = str ''CLM001'', overall_status = Flagged, risk_score = 72,
      issues = [mismatchFinding, demographicFinding, costFinding, modifierFinding],
      total_cost_impact = 4000\<rparr>"

definition sampleContext :: ConversationContext where
  "sampleContext = \<lparr>claim_snapshot = sampleClaim, result_snapshot = sampleResult\<rparr>"

definition sampleEvents :: "storeEvent list" where
  "sampleEvents = [Validated (str ''CLM001'') sampleContext, Evicted (str ''CLM001'')]"

definition sampleLlm :: "ConversationContext \<Rightarrow> jsstring \<Rightarrow> jsstring option" where
  "sampleLlm ctx q = Some (str ''The claim was flagged for two coding issues.'')"

section \<open>Properties of the number model\<close>

text \<open>
  Conversion to a Number keeps the sign, keeps a positive integer a positive integer (or
  overflows to an infinity), and is exact on the integers below \<open>2^53\<close>.
\<close>

lemma pow2_pos: "0 < pow2 k"
  by (simp add: pow2_def)

lemma round_half_even_of_int: "round_half_even (of_int z) = z"
  by (simp add: round_half_even_def)

lemma round_half_even_ge_floor: "\<lfloor>m\<rfloor> \<le> round_half_even m"
  by (simp add: round_half_even_def Let_def)

lemma round_half_even_nonneg: "0 \<le> m \<Longrightarrow> 0 \<le> round_half_even m"
  using round_half_even_ge_floor [of m] zero_le_floor [of m] by linarith

lemma ilog2_nonneg: "0 \<le> ilog2 n"
proof (induction n rule: ilog2.induct)
  case (1 n)
  then show ?case by (subst ilog2.simps) (simp del: ilog2.simps)
qed

lemma ilog2_bound: "1 \<le> n \<Longrightarrow> 2 ^ nat (ilog2 n) \<le> n"
proof (induction n rule: ilog2.induct)
  case (1 n)
  show ?case
  proof (cases "n \<le> 1")
    case True
    with "1.prems" show ?thesis by (subst ilog2.simps) simp
  next
    case False
    then have h: "1 \<le> n div 2" by simp
    have ih: "2 ^ nat (ilog2 (n div 2)) \<le> n div 2" using "1.IH" False h by simp
    have "ilog2 n = 1 + ilog2 (n div 2)" using False by (subst ilog2.simps) simp
    then have "(2::int) ^ nat (ilog2 n) = 2 * 2 ^ nat (ilog2 (n div 2))"
      using ilog2_nonneg [of "n div 2"] by (simp add: nat_add_distrib)
    also have "\<dots> \<le> 2 * (n div 2)" using ih by simp
    also have "\<dots> \<le> n" by simp
    finally show ?thesis .
  qed
qed

lemma to_double_cases:
  assumes "q \<noteq> 0"
  obtains e r where "e = max (floor_log2 \<bar>q\<bar>) (- 1022)"
    and "r = round_half_even (\<bar>q\<bar> / pow2 (e - 52))"
    and "to_double q =
      (if pow2 1024 \<le> of_int r * pow2 (e - 52) then (if 0 < q then PosInf else NegInf)
       else Num (if 0 < q then of_int r * pow2 (e - 52) else - (of_int r * pow2 (e - 52))))"
  using assms by (simp add: to_double_def Let_def)

lemma to_double_nonneg: "0 \<le> q \<Longrightarrow> is_non_negative (to_double q)"
proof (cases "q = 0")
  case True
  then show ?thesis by (simp add: to_double_def is_non_negative_def)
next
  case False
  assume "0 \<le> q"
  with False have pos: "0 < q" by simp
  from False obtain e r where r: "r = round_half_even (\<bar>q\<bar> / pow2 (e - 52))"
    and td: "to_double q =
      (if pow2 1024 \<le> of_int r * pow2 (e - 52) then (if 0 < q then PosInf else NegInf)
       else Num (if 0 < q then of_int r * pow2 (e - 52) else - (of_int r * pow2 (e - 52))))"
    by (rule to_double_cases)
  have "0 \<le> \<bar>q\<bar> / pow2 (e - 52)" using pow2_pos [of "e - 52"] by simp
  then have "0 \<le> r" unfolding r by (rule round_half_even_nonneg)
  then have "(0::rat) \<le> of_int r * pow2 (e - 52)"
    using pow2_pos [of "e - 52"] by simp
  with td pos show ?thesis by (simp add: is_non_negative_def)
qed

lemma pow2_powi: "pow2 k = 2 powi k"
  by (simp add: pow2_def power_int_def power_one_over)

lemma pow2_diff: "pow2 a / pow2 b = pow2 (a - b)"
  by (simp add: pow2_powi power_int_diff)

lemma pow2_mono: "a \<le> b \<Longrightarrow> pow2 a \<le> pow2 b"
  by (simp add: pow2_powi power_int_increasing)

lemma floor_log2_of_int_le:
  assumes "1 \<le> n"
  shows "pow2 (floor_log2 (of_int n)) \<le> of_int n"
proof -
  have "(2::int) ^ nat (ilog2 n) \<le> n" using assms by (rule ilog2_bound)
  then have "(of_int ((2::int) ^ nat (ilog2 n)) :: rat) \<le> of_int n"
    by (simp only: of_int_le_iff)
  then have "pow2 (ilog2 n) \<le> of_int n"
    using ilog2_nonneg [of n] by (simp add: pow2_def)
  moreover have "ilog2 1 = 0" by (subst ilog2.simps) simp
  ultimately show ?thesis
    by (simp add: floor_log2_def Let_def quotient_of_int)
qed

lemma to_double_pos_int:
  assumes "0 < n"
  shows "to_double (of_int n) = PosInf \<or> is_positive_integer (to_double (of_int n))"
proof -
  let ?q = "of_int n :: rat"
  have q: "0 < ?q" "?q \<noteq> 0" "\<bar>?q\<bar> = ?q" using assms by simp_all
  from q(2) obtain e r where e: "e = max (floor_log2 \<bar>?q\<bar>) (- 1022)"
    and r: "r = round_half_even (\<bar>?q\<bar> / pow2 (e - 52))"
    and td: "to_double ?q =
      (if pow2 1024 \<le> of_int r * pow2 (e - 52) then (if 0 < ?q then PosInf else NegInf)
       else Num (if 0 < ?q then of_int r * pow2 (e - 52) else - (of_int r * pow2 (e - 52))))"
    by (rule to_double_cases)
  have int_val: "\<exists>k::int. 0 < k \<and> of_int r * pow2 (e - 52) = of_int k"
  proof (cases "e \<le> 52")
    case True
    then have p: "pow2 (e - 52) = 1 / of_int (2 ^ nat (52 - e))"
      by (auto simp: pow2_def)
    have "\<bar>?q\<bar> / pow2 (e - 52) = of_int (n * 2 ^ nat (52 - e))"
      by (simp add: p q)
    then have "r = n * 2 ^ nat (52 - e)"
      unfolding r by (simp only: round_half_even_of_int)
    then have "of_int r * pow2 (e - 52) = (of_int n :: rat)"
      by (simp add: p)
    with assms show ?thesis by blast
  next
    case False
    then have p: "pow2 (e - 52) = of_int (2 ^ nat (e - 52))"
      by (simp add: pow2_def)
    from False e have e': "e = floor_log2 ?q" by (simp add: q max_def split: if_splits)
    have "pow2 e \<le> ?q" unfolding e' using assms by (intro floor_log2_of_int_le) simp
    then have "pow2 e / pow2 (e - 52) \<le> ?q / pow2 (e - 52)"
      using pow2_pos [of "e - 52"] by (simp add: divide_right_mono)
    then have "pow2 52 \<le> ?q / pow2 (e - 52)" by (simp add: pow2_diff)
    moreover have "(1::rat) \<le> pow2 52" by (simp add: pow2_def)
    ultimately have "1 \<le> \<bar>?q\<bar> / pow2 (e - 52)" using q by simp
    then have "1 \<le> \<lfloor>\<bar>?q\<bar> / pow2 (e - 52)\<rfloor>" by simp
    then have "1 \<le> r" unfolding r using round_half_even_ge_floor order_trans by blast
    then have "0 < r * 2 ^ nat (e - 52)" by simp
    moreover have "of_int r * pow2 (e - 52) = (of_int (r * 2 ^ nat (e - 52)) :: rat)"
      by (simp add: p)
    ultimately show ?thesis by blast
  qed
  then obtain k :: int where k: "0 < k" "of_int r * pow2 (e - 52) = of_int k" by blast
  show ?thesis
    using td q k by (simp add: is_positive_integer_def)
qed

lemma to_double_of_int_exact:
  assumes "\<bar>n\<bar> < 2 ^ 53"
  shows "to_double (of_int n) = Num (of_int n)"
proof (cases "n = 0")
  case True
  then show ?thesis by (simp add: to_double_def)
next
  case False
  let ?q = "of_int n :: rat"
  let ?a = "\<bar>n\<bar>"
  have a: "1 \<le> ?a" using False by simp
  have qa: "\<bar>?q\<bar> = of_int ?a" by simp
  from False have "?q \<noteq> 0" by simp
  then obtain e r where e: "e = max (floor_log2 \<bar>?q\<bar>) (- 1022)"
    and r: "r = round_half_even (\<bar>?q\<bar> / pow2 (e - 52))"
    and td: "to_double ?q =
      (if pow2 1024 \<le> of_int r * pow2 (e - 52) then (if 0 < ?q then PosInf else NegInf)
       else Num (if 0 < ?q then of_int r * pow2 (e - 52) else - (of_int r * pow2 (e - 52))))"
    by (rule to_double_cases)
  have "e \<le> 52"
  proof (rule ccontr)
    assume "\<not> e \<le> 52"
    then have "e = floor_log2 \<bar>?q\<bar>" "53 \<le> e" using e by (simp_all add: max_def split: if_splits)
    then have e': "e = floor_log2 (of_int ?a)" "53 \<le> e" by (simp_all only: qa)
    have "pow2 e \<le> of_int ?a" unfolding e'(1) using a by (rule floor_log2_of_int_le)
    moreover have "pow2 53 \<le> pow2 e" using e'(2) by (rule pow2_mono)
    ultimately have "(2::rat) ^ 53 \<le> of_int ?a" by (simp add: pow2_def)
    then have "(of_int (2 ^ 53) :: rat) \<le> of_int ?a" by simp
    then have "(2::int) ^ 53 \<le> ?a" by (simp only: of_int_le_iff)
    with assms show False by simp
  qed
  then have p: "pow2 (e - 52) = 1 / of_int (2 ^ nat (52 - e))"
    by (auto simp: pow2_def)
  have "\<bar>?q\<bar> / pow2 (e - 52) = of_int (?a * 2 ^ nat (52 - e))"
    unfolding qa p by simp
  then have "r = ?a * 2 ^ nat (52 - e)"
    unfolding r by (simp only: round_half_even_of_int)
  then have v: "of_int r * pow2 (e - 52) = (of_int ?a :: rat)"
    by (simp add: p)
  have "(of_int ?a :: rat) < of_int (2 ^ 53)" using assms by (simp only: of_int_less_iff)
  also have "\<dots> \<le> pow2 1024" by (simp add: pow2_def)
  finally have "\<not> pow2 1024 \<le> (of_int ?a :: rat)" by simp
  with td v show ?thesis by (auto simp: abs_if)
qed

lemma to_double_numeral [simp]:
  "numeral w < (2::int) ^ 53 \<Longrightarrow> to_double (numeral w) = Num (numeral w)"
  using to_double_of_int_exact [of "numeral w"] by simp

lemma to_double_neg_numeral [simp]:
  "numeral w < (2::int) ^ 53 \<Longrightarrow> to_double (- numeral w) = Num (- numeral w)"
  using to_double_of_int_exact [of "- numeral w"] by simp

lemma to_double_zero [simp]: "to_double 0 = Num 0"
  by (simp add: to_double_def)

lemma to_double_one [simp]: "to_double 1 = Num 1"
  using to_double_of_int_exact [of 1] by simp

section \<open>Properties of parseInt and parseFloat\<close>

text \<open>
  A text without a leading minus sign parses to NaN or to a value that is not negative; the
  digits that \<open>parseInt\<close> reads are an integer.
\<close>

lemma isDigit_digitValue: "isDigit c \<Longrightarrow> 0 \<le> digitValue c"
  by (simp add: isDigit_def digitValue_def word_le_def)

lemma isHexDigit_digitValue: "isHexDigit c \<Longrightarrow> 0 \<le> digitValue c"
  by (auto simp: isHexDigit_def isDigit_def digitValue_def word_le_def)

lemma foldl_digits_nonneg:
  "0 \<le> radix \<Longrightarrow> 0 \<le> acc \<Longrightarrow> \<forall>c\<in>set ds. 0 \<le> digitValue c
    \<Longrightarrow> 0 \<le> foldl (\<lambda>acc c. radix * acc + digitValue c) acc ds"
  by (induction ds arbitrary: acc) auto

lemma digitsValue_decimal_nonneg: "0 \<le> digitsValue 10 (takeWhile isDigit u)"
  unfolding digitsValue_def
  by (rule foldl_digits_nonneg) (auto dest: set_takeWhileD intro: isDigit_digitValue)

lemma digitsValue_hex_nonneg: "0 \<le> digitsValue 16 (takeWhile isHexDigit u)"
  unfolding digitsValue_def
  by (rule foldl_digits_nonneg) (auto dest: set_takeWhileD intro: isHexDigit_digitValue)

lemma stripSign_no_minus: "\<not> startsWithMinus s \<Longrightarrow> fst (stripSign (trimStart s)) = False"
  by (auto simp: startsWithMinus_def stripSign_def split: list.splits)

lemma stripHexPrefix_radix: "fst (stripHexPrefix t) = 10 \<or> fst (stripHexPrefix t) = 16"
  by (auto simp: stripHexPrefix_def split: list.splits)

lemma parseInt_no_minus:
  assumes "\<not> startsWithMinus s"
  shows "parseInt s = NaN \<or> (\<exists>n\<ge>0. parseInt s = to_double (of_int n))"
proof -
  obtain neg t where st: "stripSign (trimStart s) = (neg, t)" by (cases "stripSign (trimStart s)")
  with assms have neg: "neg = False" using stripSign_no_minus [of s] by simp
  obtain radix u where hp: "stripHexPrefix t = (radix, u)" by (cases "stripHexPrefix t")
  then consider "radix = 10" | "radix = 16" using stripHexPrefix_radix [of t] by auto
  then show ?thesis
  proof cases
    case 1
    then show ?thesis
      using digitsValue_decimal_nonneg [of u]
      by (auto simp: parseInt_def st neg hp Let_def)
  next
    case 2
    then show ?thesis
      using digitsValue_hex_nonneg [of u]
      by (auto simp: parseInt_def st neg hp Let_def)
  qed
qed

lemma or_else_one_positive:
  assumes "x = NaN \<or> (\<exists>n\<ge>0. x = to_double (of_int n))"
  shows "or_else x (Num 1) = PosInf \<or> is_positive_integer (or_else x (Num 1))"
proof -
  have one: "is_positive_integer (Num 1)" by (simp add: is_positive_integer_def)
  from assms show ?thesis
  proof
    assume "x = NaN"
    then show ?thesis using one by (simp add: or_else_def truthy_number_def)
  next
    assume "\<exists>n\<ge>0. x = to_double (of_int n)"
    then obtain n :: int where n: "0 \<le> n" "x = to_double (of_int n)" by blast
    show ?thesis
    proof (cases "n = 0")
      case True
      with n show ?thesis using one by (simp add: or_else_def truthy_number_def)
    next
      case False
      with n have "0 < n" by simp
      then have "x = PosInf \<or> is_positive_integer x"
        unfolding n(2) by (rule to_double_pos_int)
      then show ?thesis using one by (auto simp: or_else_def)
    qed
  qed
qed

lemma units_positive:
  "\<not> startsWithMinus (procedureRow.units p) \<Longrightarrow>
   ProcedureCode.units (toProcedureCode p) = PosInf \<or>
   is_positive_integer (ProcedureCode.units (toProcedureCode p))"
  using or_else_one_positive [OF parseInt_no_minus, of "procedureRow.units p"]
  by (simp add: toProcedureCode_def)

lemma pow10_nonneg: "0 \<le> pow10 k"
  by (simp add: pow10_def)

lemma digitsValue_digits_nonneg: "\<forall>c\<in>set ds. isDigit c \<Longrightarrow> 0 \<le> digitsValue 10 ds"
  unfolding digitsValue_def
  by (rule foldl_digits_nonneg) (auto intro: isDigit_digitValue)

lemma scaled_digits_nonneg:
  "\<forall>c\<in>set ds. isDigit c \<Longrightarrow> (0::rat) \<le> of_int (digitsValue 10 ds) * pow10 k"
  using digitsValue_digits_nonneg [of ds] pow10_nonneg [of k] by simp

lemma unsignedDecimal_nonneg:
  assumes "unsignedDecimal u = Some m"
  shows "is_non_negative m"
proof (cases "take 8 u = str ''Infinity''")
  case True
  with assms show ?thesis by (simp add: unsignedDecimal_def is_non_negative_def)
next
  case False
  let ?ip = "takeWhile isDigit u"
  have ip: "\<forall>c\<in>set ?ip. isDigit c" by (auto dest: set_takeWhileD)
  show ?thesis
  proof (cases "dropWhile isDigit u")
    case Nil
    with assms False have "m = to_double (of_int (digitsValue 10 ?ip))"
      by (simp add: unsignedDecimal_def Let_def split: if_splits)
    then show ?thesis
      using digitsValue_digits_nonneg [OF ip] by (simp add: to_double_nonneg)
  next
    case (Cons c r2)
    show ?thesis
    proof (cases "c = 0x002E")
      case True
      let ?fp = "takeWhile isDigit r2"
      have "\<forall>c\<in>set (?ip @ ?fp). isDigit c" by (auto dest: set_takeWhileD)
      then have "(0::rat) \<le> of_int (digitsValue 10 (?ip @ ?fp))
          * pow10 (exponentPart (dropWhile isDigit r2) - int (length ?fp))"
        by (rule scaled_digits_nonneg)
      moreover from assms False Cons True
      have "m = to_double (of_int (digitsValue 10 (?ip @ ?fp))
          * pow10 (exponentPart (dropWhile isDigit r2) - int (length ?fp)))"
        by (simp add: unsignedDecimal_def Let_def split: if_splits)
      ultimately show ?thesis by (simp add: to_double_nonneg)
    next
      case other: False
      have "(0::rat) \<le> of_int (digitsValue 10 ?ip) * pow10 (exponentPart (c # r2))"
        using ip by (rule scaled_digits_nonneg)
      moreover from assms False Cons other
      have "m = to_double (of_int (digitsValue 10 ?ip) * pow10 (exponentPart (c # r2)))"
        by (simp add: unsignedDecimal_def Let_def split: if_splits)
      ultimately show ?thesis by (simp add: to_double_nonneg)
    qed
  qed
qed

lemma parseFloat_no_minus:
  assumes "\<not> startsWithMinus s"
  shows "parseFloat s = NaN \<or> is_non_negative (parseFloat s)"
proof -
  obtain neg u where st: "stripSign (trimStart s) = (neg, u)" by (cases "stripSign (trimStart s)")
  with assms have neg: "neg = False" using stripSign_no_minus [of s] by simp
  show ?thesis
    by (auto simp: parseFloat_def st neg dest: unsignedDecimal_nonneg split: option.splits)
qed

lemma charge_non_negative:
  "\<not> startsWithMinus (procedureRow.charge p) \<Longrightarrow>
   is_non_negative (ProcedureCode.charge (toProcedureCode p))"
  using parseFloat_no_minus [of "procedureRow.charge p"]
  by (auto simp: toProcedureCode_def or_else_def truthy_number_def is_non_negative_def)

section \<open>Properties of trim and split\<close>

text \<open>
  A string trims to the empty string exactly when it is white space only, and all the
  pieces of a split are white space only exactly when the string holds nothing but
  separators and white space.
\<close>

lemma str_simps [simp]: "str [] = []" "str (c # cs) = of_char c # str cs"
  by (simp_all add: str_def)

lemma trim_empty_iff: "trim s = [] \<longleftrightarrow> list_all isWhiteSpace s"
proof
  assume "trim s = []"
  then have "\<forall>c\<in>set (dropWhile isWhiteSpace s). isWhiteSpace c"
    by (simp add: trim_def dropWhile_eq_Nil_conv)
  then have "dropWhile isWhiteSpace s = []"
    using hd_dropWhile [of isWhiteSpace s] hd_in_set [of "dropWhile isWhiteSpace s"] by blast
  then show "list_all isWhiteSpace s"
    by (simp add: dropWhile_eq_Nil_conv list_all_iff)
next
  assume "list_all isWhiteSpace s"
  then have "dropWhile isWhiteSpace s = []"
    by (simp add: dropWhile_eq_Nil_conv list_all_iff)
  then show "trim s = []" by (simp only: trim_def dropWhile.simps rev.simps)
qed

lemma split_not_empty: "split sep s \<noteq> []"
  by (induction s) (auto split: list.splits)

lemma split_pieces_blank:
  "list_all (\<lambda>w. list_all isWhiteSpace w) (split sep s)
    \<longleftrightarrow> list_all (\<lambda>c. c = sep \<or> isWhiteSpace c) s"
proof (induction s)
  case Nil
  then show ?case by simp
next
  case (Cons c cs)
  then show ?case
    using split_not_empty [of sep cs] by (cases "split sep cs") auto
qed

section \<open>Properties of handleSubmit\<close>

text \<open>
  The diagnosis list that \<open>handleSubmit\<close> builds is empty exactly when the field holds
  nothing but commas and white space.
\<close>

lemma diagnosis_codes_empty_iff:
  "Claim.diagnosis_codes (handleSubmit fd procedures) = []
    \<longleftrightarrow> list_all (\<lambda>c. c = comma \<or> isWhiteSpace c) (formData.diagnosis_codes fd)"
proof -
  have "Claim.diagnosis_codes (handleSubmit fd procedures) = []
      \<longleftrightarrow> list_all (\<lambda>w. trim w = []) (split comma (formData.diagnosis_codes fd))"
    by (simp add: handleSubmit_def Let_def truthy_string_def filter_empty_conv list_all_iff)
  then show ?thesis
    by (simp add: trim_empty_iff split_pieces_blank)
qed

lemmas parse_defs =
  parseInt_def parseFloat_def unsignedDecimal_def exponentPart_def trimStart_def
  isWhiteSpace_def stripSign_def minusSign_def plusSign_def stripHexPrefix_def isDigit_def
  digitsValue_def digitValue_def js_negate_def pow10_def startsWithMinus_def

text \<open>
  Whatever the text, the unit count is neither NaN nor 0 and the charge is not NaN: the
  defaults 1 and 0 stand in.
\<close>

lemma units_truthy: "truthy_number (ProcedureCode.units (toProcedureCode p))"
  by (simp add: toProcedureCode_def or_else_def truthy_number_def)

lemma charge_not_NaN: "ProcedureCode.charge (toProcedureCode p) \<noteq> NaN"
  by (simp add: toProcedureCode_def or_else_def truthy_number_def)

section \<open>Overflow, and the number inputs of the form\<close>

text \<open>
  An integer of \<open>2^1024\<close> or more converts to \<open>+Infinity\<close>.
\<close>

lemma ilog2_upper: "1 \<le> n \<Longrightarrow> n < 2 ^ nat (ilog2 n + 1)"
proof (induction n rule: ilog2.induct)
  case (1 n)
  show ?case
  proof (cases "n \<le> 1")
    case True
    with "1.prems" have "n = 1" by simp
    then show ?thesis by (subst ilog2.simps) simp
  next
    case False
    then have h: "1 \<le> n div 2" by simp
    have ih: "n div 2 < 2 ^ nat (ilog2 (n div 2) + 1)" using "1.IH" False h by simp
    have "ilog2 n = 1 + ilog2 (n div 2)" using False by (subst ilog2.simps) simp
    then have "(2::int) ^ nat (ilog2 n + 1) = 2 * 2 ^ nat (ilog2 (n div 2) + 1)"
      using ilog2_nonneg [of "n div 2"] by (simp add: nat_add_distrib)
    moreover have "n < 2 * (n div 2 + 1)"
      by presburger
    moreover have "n div 2 + 1 \<le> 2 ^ nat (ilog2 (n div 2) + 1)" using ih by simp
    ultimately show ?thesis by linarith
  qed
qed

lemma floor_log2_of_int:
  assumes "1 \<le> n"
  shows "floor_log2 (of_int n) = ilog2 n"
proof -
  have "(2::int) ^ nat (ilog2 n) \<le> n" using assms by (rule ilog2_bound)
  then have "(of_int ((2::int) ^ nat (ilog2 n)) :: rat) \<le> of_int n"
    by (simp only: of_int_le_iff)
  then have "pow2 (ilog2 n) \<le> of_int n"
    using ilog2_nonneg [of n] by (simp add: pow2_def)
  moreover have "ilog2 1 = 0" by (subst ilog2.simps) simp
  ultimately show ?thesis
    by (simp add: floor_log2_def Let_def quotient_of_int)
qed

lemma to_double_overflow:
  assumes "2 ^ 1024 \<le> n"
  shows "to_double (of_int n) = PosInf"
proof -
  let ?q = "of_int n :: rat"
  have n1: "1 \<le> n" using assms by (rule order_trans [rotated]) simp
  then have q: "0 < ?q" "?q \<noteq> 0" "\<bar>?q\<bar> = ?q" by simp_all
  from q(2) obtain e r where e: "e = max (floor_log2 \<bar>?q\<bar>) (- 1022)"
    and r: "r = round_half_even (\<bar>?q\<bar> / pow2 (e - 52))"
    and td: "to_double ?q =
      (if pow2 1024 \<le> of_int r * pow2 (e - 52) then (if 0 < ?q then PosInf else NegInf)
       else Num (if 0 < ?q then of_int r * pow2 (e - 52) else - (of_int r * pow2 (e - 52))))"
    by (rule to_double_cases)
  have "n < 2 ^ nat (ilog2 n + 1)" using n1 by (rule ilog2_upper)
  with assms have lt: "(2::int) ^ 1024 < 2 ^ nat (ilog2 n + 1)" by linarith
  have "(1::int) < 2" by simp
  then have "1024 < nat (ilog2 n + 1)" using lt by (rule power_less_imp_less_exp)
  then have big: "1024 \<le> ilog2 n" by linarith
  have e': "e = ilog2 n"
    using e big by (simp add: q(3) floor_log2_of_int [OF n1] max_def)
  have "pow2 e \<le> ?q" unfolding e' using floor_log2_of_int_le [OF n1] floor_log2_of_int [OF n1] by simp
  then have "pow2 e / pow2 (e - 52) \<le> ?q / pow2 (e - 52)"
    using pow2_pos [of "e - 52"] by (simp add: divide_right_mono)
  then have "pow2 52 \<le> \<bar>?q\<bar> / pow2 (e - 52)" by (simp add: pow2_diff q(3))
  then have "\<lfloor>pow2 52\<rfloor> \<le> \<lfloor>\<bar>?q\<bar> / pow2 (e - 52)\<rfloor>" by (rule floor_mono)
  moreover have "pow2 52 = of_int (2 ^ 52)" by (simp add: pow2_def)
  ultimately have "2 ^ 52 \<le> \<lfloor>\<bar>?q\<bar> / pow2 (e - 52)\<rfloor>" by (simp only: floor_of_int)
  then have "2 ^ 52 \<le> r" unfolding r using round_half_even_ge_floor order_trans by blast
  then have "(of_int (2 ^ 52) :: rat) \<le> of_int r" by (simp only: of_int_le_iff)
  then have "pow2 52 * pow2 (e - 52) \<le> of_int r * pow2 (e - 52)"
    using pow2_pos [of "e - 52"] by (simp add: pow2_def mult_right_mono)
  moreover have "pow2 52 * pow2 (e - 52) = pow2 e"
  proof -
    have "pow2 e / pow2 (e - 52) = pow2 52" using pow2_diff [of e "e - 52"] by simp
    then show ?thesis using pow2_pos [of "e - 52"] by (simp add: field_simps)
  qed
  moreover have "pow2 1024 \<le> pow2 e" using big e' by (simp add: pow2_mono)
  ultimately have "pow2 1024 \<le> of_int r * pow2 (e - 52)" by linarith
  with td q(1) show ?thesis by simp
qed

lemma to_double_numeral_overflow:
  "(2::int) ^ 1024 \<le> numeral w \<Longrightarrow> to_double (numeral w) = PosInf"
  using to_double_overflow [of "numeral w"] by simp

text \<open>
  The units text of 310 digits and the exponent \<open>e-309\<close>: the number input reads the
  number 1 from it, \<open>parseInt\<close> reads the digits alone.
\<close>

lemma takeWhile_replicate_append:
  "P x \<Longrightarrow> takeWhile P (replicate n x @ ys) = replicate n x @ takeWhile P ys"
  by (induction n) simp_all

lemma dropWhile_replicate_append:
  "P x \<Longrightarrow> dropWhile P (replicate n x @ ys) = dropWhile P ys"
  by (induction n) simp_all

lemma digits_zeros:
  "foldl (\<lambda>acc c. 10 * acc + digitValue c) a (replicate n 0x0030) = a * 10 ^ n"
  by (induction n arbitrary: a) (simp_all add: digitValue_def isDigit_def)

lemma digitValue_one: "digitValue 0x0031 = 1"
  by (simp add: digitValue_def isDigit_def)

lemma overflowUnits_digits:
  "takeWhile isDigit overflowUnits = 0x0031 # replicate 309 0x0030"
  "dropWhile isDigit overflowUnits = str ''e-309''"
  by (simp_all add: overflowUnits_def takeWhile_replicate_append dropWhile_replicate_append
      isDigit_def)

lemma overflowUnits_digitsValue: "digitsValue 10 (0x0031 # replicate 309 0x0030) = 10 ^ 309"
  by (simp add: digitsValue_def digits_zeros digitValue_one)

lemma overflowUnits_head:
  "trimStart overflowUnits = overflowUnits"
  "stripSign overflowUnits = (False, overflowUnits)"
  "stripHexPrefix overflowUnits = (10, overflowUnits)"
  "take 8 overflowUnits \<noteq> str ''Infinity''"
  "overflowUnits \<noteq> []"
  by (simp_all add: overflowUnits_def trimStart_def isWhiteSpace_def stripSign_def minusSign_def
      plusSign_def stripHexPrefix_def split: list.splits)

lemma overflowUnits_parseInt: "parseInt overflowUnits = PosInf"
  by (simp add: parseInt_def overflowUnits_head overflowUnits_digits overflowUnits_digitsValue
      to_double_numeral_overflow)

lemma unsignedDecimal_without_fraction:
  assumes "take 8 u \<noteq> str ''Infinity''" and "takeWhile isDigit u \<noteq> []"
    and "dropWhile isDigit u = c # r" and "c \<noteq> 0x002E"
  shows "unsignedDecimal u =
    Some (to_double (of_int (digitsValue 10 (takeWhile isDigit u)) * pow10 (exponentPart (c # r))))"
  using assms by (simp add: unsignedDecimal_def Let_def del: str_simps)

lemma overflowUnits_parseFloat: "parseFloat overflowUnits = Num 1"
proof -
  have ex: "exponentPart (0x0065 # str ''-309'') = - 309"
    by (simp add: exponentPart_def stripSign_def minusSign_def plusSign_def isDigit_def
        digitsValue_def digitValue_def)
  have dw: "dropWhile isDigit overflowUnits = 0x0065 # str ''-309''"
    by (simp add: overflowUnits_digits)
  have "unsignedDecimal overflowUnits =
      Some (to_double (of_int (digitsValue 10 (takeWhile isDigit overflowUnits))
        * pow10 (exponentPart (0x0065 # str ''-309''))))"
    using overflowUnits_head(4) _ dw by (rule unsignedDecimal_without_fraction)
      (simp_all add: overflowUnits_digits)
  then have "unsignedDecimal overflowUnits = Some (to_double (10 ^ 309 * pow10 (- 309)))"
    by (simp only: ex overflowUnits_digits overflowUnits_digitsValue of_int_power of_int_numeral)
  moreover have "(10::rat) ^ 309 * pow10 (- 309) = 1" by (simp add: pow10_def)
  ultimately show ?thesis
    by (simp add: parseFloat_def overflowUnits_head)
qed

lemma overflowUnits_valid: "validFloatingPoint overflowUnits"
proof -
  have "validExponent (str ''e-309'')"
    by (simp add: validExponent_def stripSign_def minusSign_def plusSign_def isDigit_def)
  moreover have "(case overflowUnits of [] \<Rightarrow> [] | c # r \<Rightarrow> if c = minusSign then r else overflowUnits)
      = overflowUnits"
    by (simp add: overflowUnits_def minusSign_def)
  ultimately show ?thesis
    by (simp add: validFloatingPoint_def overflowUnits_digits Let_def)
qed

lemma overflowUnits_value: "numberInputValue overflowUnits = Some 1"
  by (simp add: numberInputValue_def overflowUnits_valid overflowUnits_parseFloat)

text \<open>
  A text that starts with a minus sign denotes no positive number, so the units input
  accepts no such text; and a charge text that the charge input accepts gives a finite
  charge that is not negative.
\<close>

lemma parseFloat_minus_not_positive:
  assumes "startsWithMinus s" and "parseFloat s = Num r"
  shows "r \<le> 0"
proof -
  from assms(1) obtain u where st: "stripSign (trimStart s) = (True, u)"
    by (auto simp: startsWithMinus_def stripSign_def split: list.splits)
  show ?thesis
  proof (cases "unsignedDecimal u")
    case None
    with assms(2) st show ?thesis by (simp add: parseFloat_def)
  next
    case (Some m)
    then have "is_non_negative m" by (rule unsignedDecimal_nonneg)
    moreover from assms(2) st Some have "js_negate m = Num r" by (simp add: parseFloat_def)
    ultimately show ?thesis
      by (cases m) (simp_all add: js_negate_def is_non_negative_def)
  qed
qed

lemma unitsInputAccepts_no_minus: "unitsInputAccepts s \<Longrightarrow> \<not> startsWithMinus s"
  using parseFloat_minus_not_positive [of s]
  by (fastforce simp: unitsInputAccepts_def numberInputValue_def
      split: option.splits if_splits number.splits)

lemma chargeInputAccepts_charge:
  "chargeInputAccepts (procedureRow.charge p) \<Longrightarrow>
   is_non_negative_decimal (ProcedureCode.charge (toProcedureCode p))"
  by (auto simp: chargeInputAccepts_def numberInputValue_def toProcedureCode_def or_else_def
      truthy_number_def is_non_negative_decimal_def
      split: option.splits if_splits number.splits)

text \<open>
  \<open>handleSubmit\<close> itself keeps a negative value; it is the two inputs that reject the
  texts \<open>-3\<close> and \<open>-5\<close>, so that such a row is never submitted.
\<close>

lemma handleSubmit_keeps_negative_values:
  "ProcedureCode.units
     (procedure_codes
        (handleSubmit sampleFormData
          [\<lparr>procedureRow.cpt = str ''99213'', procedureRow.modifiers = [],
            procedureRow.units = str ''-3'', procedureRow.charge = str ''-5''\<rparr>]) ! 0) = Num (- 3) \<and>
   ProcedureCode.charge
     (procedure_codes
        (handleSubmit sampleFormData
          [\<lparr>procedureRow.cpt = str ''99213'', procedureRow.modifiers = [],
            procedureRow.units = str ''-3'', procedureRow.charge = str ''-5''\<rparr>]) ! 0) = Num (- 5) \<and>
   \<not> unitsInputAccepts (str ''-3'') \<and> \<not> chargeInputAccepts (str ''-5'')"
  by (simp add: handleSubmit_def toProcedureCode_def or_else_def truthy_number_def
      unitsInputAccepts_def chargeInputAccepts_def numberInputValue_def validFloatingPoint_def
      validExponent_def parse_defs)

text \<open>
  For a row with no minus sign at the start of its units and charge texts, whether the
  inputs accept it or not, the unit count is a positive integer or \<open>+Infinity\<close> and the
  charge is not negative.
\<close>

lemma row_without_minus_sign:
  assumes "i < length procedures"
    and "\<not> startsWithMinus (procedureRow.units (procedures ! i))"
    and "\<not> startsWithMinus (procedureRow.charge (procedures ! i))"
  shows "(is_positive_integer
            (ProcedureCode.units (procedure_codes (handleSubmit fd procedures) ! i)) \<or>
          ProcedureCode.units (procedure_codes (handleSubmit fd procedures) ! i) = PosInf) \<and>
         is_non_negative
           (ProcedureCode.charge (procedure_codes (handleSubmit fd procedures) ! i))"
proof -
  have "procedure_codes (handleSubmit fd procedures) ! i = toProcedureCode (procedures ! i)"
    using assms(1) by (simp add: handleSubmit_def Let_def)
  then show ?thesis
    using units_positive [OF assms(2)] charge_non_negative [OF assms(3)] by auto
qed

section \<open>The total charge\<close>

text \<open>
  The total is the fold of Number addition over the products, in the order of the entries;
  it is the exact sum when the entries are exactly summable, as whole numbers below
  \<open>2^53\<close> are.
\<close>

lemma total_charge_fold:
  "Claim.total_charge (handleSubmit fd procedures) =
     sum_numbers
       (map (\<lambda>p. js_mul (ProcedureCode.charge p) (ProcedureCode.units p))
         (procedure_codes (handleSubmit fd procedures)))"
  by (simp add: handleSubmit_def sum_numbers_def Let_def foldl_map)

lemma representable_of_int: "\<bar>n\<bar> < 2 ^ 53 \<Longrightarrow> representable (of_int n)"
  by (simp add: representable_def to_double_of_int_exact)

lemma exact_fold:
  "exactly_summable acc ps \<Longrightarrow>
   foldl (\<lambda>sum p. js_add sum (js_mul (ProcedureCode.charge p) (ProcedureCode.units p)))
     (Num acc) ps = Num (acc + exact_sum ps)"
proof (induction ps arbitrary: acc)
  case Nil
  then show ?case by (simp add: exact_sum_def)
next
  case (Cons p ps)
  from Cons.prems obtain c u where cu: "ProcedureCode.charge p = Num c" "ProcedureCode.units p = Num u"
    by (auto simp: is_finite_def split: number.splits)
  from Cons.prems have rep: "to_double (c * u) = Num (c * u)"
      "to_double (acc + c * u) = Num (acc + c * u)"
    and rest: "exactly_summable (acc + c * u) ps"
    by (simp_all add: cu value_of_def representable_def Let_def)
  have "js_add (Num acc) (js_mul (ProcedureCode.charge p) (ProcedureCode.units p)) = Num (acc + c * u)"
    by (simp add: cu rep)
  then show ?case
    using Cons.IH [OF rest] by (simp add: exact_sum_def cu value_of_def add.assoc)
qed

text \<open>
  Whole entries whose products have magnitudes adding up to less than \<open>2^53\<close> are
  exactly summable.
\<close>

lemma absolute_sum_nonneg: "0 \<le> absolute_sum ps"
  by (induction ps) (simp_all add: absolute_sum_def)

lemma representable_whole:
  assumes "of_int \<lfloor>q\<rfloor> = q" and "\<bar>q\<bar> < 2 ^ 53"
  shows "representable q"
proof -
  have "\<bar>(of_int \<lfloor>q\<rfloor> :: rat)\<bar> < 2 ^ 53" by (simp only: assms)
  then have "(of_int \<bar>\<lfloor>q\<rfloor>\<bar> :: rat) < of_int (2 ^ 53)" by (simp only: of_int_abs of_int_power of_int_numeral)
  then have "\<bar>\<lfloor>q\<rfloor>\<bar> < 2 ^ 53" by (simp only: of_int_less_iff)
  then have "representable (of_int \<lfloor>q\<rfloor>)" by (rule representable_of_int)
  then show ?thesis by (simp only: assms(1))
qed

lemma whole_entries_exactly_summable:
  assumes "list_all whole_entry ps" and "of_int \<lfloor>acc\<rfloor> = acc"
    and "\<bar>acc\<bar> + absolute_sum ps < 2 ^ 53"
  shows "exactly_summable acc ps"
  using assms
proof (induction ps arbitrary: acc)
  case Nil
  then show ?case by simp
next
  case (Cons p ps)
  let ?a = "value_of (ProcedureCode.charge p) * value_of (ProcedureCode.units p)"
  from Cons.prems(1) have w: "whole_entry p" and ws: "list_all whole_entry ps" by simp_all
  from w obtain c u :: int where cu: "value_of (ProcedureCode.charge p) = of_int c"
      "value_of (ProcedureCode.units p) = of_int u"
    unfolding whole_entry_def by metis
  have a_int: "of_int \<lfloor>?a\<rfloor> = ?a" by (simp add: cu flip: of_int_mult)
  have sum_int: "of_int \<lfloor>acc + ?a\<rfloor> = acc + ?a"
  proof -
    have "acc + ?a = of_int \<lfloor>acc\<rfloor> + of_int c * of_int u" by (simp only: Cons.prems(2) cu)
    then have "acc + ?a = of_int (\<lfloor>acc\<rfloor> + c * u)" by (simp only: of_int_add of_int_mult)
    then show ?thesis by (simp only: floor_of_int)
  qed
  have split: "absolute_sum (p # ps) = \<bar>?a\<bar> + absolute_sum ps" by (simp add: absolute_sum_def)
  have b1: "\<bar>?a\<bar> < 2 ^ 53"
    using Cons.prems(3) absolute_sum_nonneg [of ps] unfolding split by linarith
  have b2: "\<bar>acc + ?a\<bar> + absolute_sum ps < 2 ^ 53"
    using Cons.prems(3) unfolding split by linarith
  then have b3: "\<bar>acc + ?a\<bar> < 2 ^ 53" using absolute_sum_nonneg [of ps] by linarith
  have "exactly_summable (acc + ?a) ps" using ws sum_int b2 by (rule Cons.IH)
  then show ?case
    using w a_int b1 sum_int b3 by (simp add: whole_entry_def representable_whole Let_def)
qed

lemma wholeRows_entries:
  "procedure_codes (handleSubmit fd wholeRows) =
     [\<lparr>ProcedureCode.cpt = str ''99213'', ProcedureCode.modifiers = [],
       ProcedureCode.units = Num 3, ProcedureCode.charge = Num 135\<rparr>,
      \<lparr>ProcedureCode.cpt = str ''99205'', ProcedureCode.modifiers = [],
       ProcedureCode.units = Num 2, ProcedureCode.charge = Num 500\<rparr>]"
  by (simp add: handleSubmit_def wholeRows_def toProcedureCode_def or_else_def truthy_number_def
      truthy_string_def parse_defs)

lemma to_double_tenths:
  "to_double (1 / 10) = Num (3602879701896397 / 36028797018963968)"
  "to_double (10808639105689191 / 36028797018963968) = Num (1351079888211149 / 4503599627370496)"
  "to_double (1351079888211149 / 4503599627370496) = Num (1351079888211149 / 4503599627370496)"
  by code_simp+

lemma threeDimes_entries:
  "procedure_codes (handleSubmit fd threeDimes) =
     [\<lparr>ProcedureCode.cpt = str ''99213'', ProcedureCode.modifiers = [],
       ProcedureCode.units = Num 3,
       ProcedureCode.charge = Num (3602879701896397 / 36028797018963968)\<rparr>]"
  by (simp add: handleSubmit_def threeDimes_def toProcedureCode_def or_else_def truthy_number_def
      truthy_string_def parse_defs to_double_tenths)

section \<open>The claim input form: the claims\<close>

text \<open>
  C1, as the specification states it, fails: for one row of 3 units at a charge of 0.1,
  which both inputs accept, \<open>total_charge\<close> is 0.30000000000000004, the product rounded
  to a Number, and not the sum of charge times units over the entries of the claim.
\<close>

theorem total_charge_rounded_counterexample:
  "unitsInputAccepts (procedureRow.units (threeDimes ! 0)) \<and>
   chargeInputAccepts (procedureRow.charge (threeDimes ! 0)) \<and>
   Claim.total_charge (handleSubmit sampleFormData threeDimes)
     = Num (1351079888211149 / 4503599627370496) \<and>
   exact_sum (procedure_codes (handleSubmit sampleFormData threeDimes))
     = 10808639105689191 / 36028797018963968 \<and>
   Claim.total_charge (handleSubmit sampleFormData threeDimes)
     \<noteq> Num (exact_sum (procedure_codes (handleSubmit sampleFormData threeDimes)))"
proof -
  have g: "unitsInputAccepts (procedureRow.units (threeDimes ! 0))"
    "chargeInputAccepts (procedureRow.charge (threeDimes ! 0))"
    by (simp_all add: threeDimes_def unitsInputAccepts_def chargeInputAccepts_def
        numberInputValue_def validFloatingPoint_def validExponent_def parse_defs to_double_tenths)
  have t: "Claim.total_charge (handleSubmit sampleFormData threeDimes)
      = Num (1351079888211149 / 4503599627370496)"
    by (simp add: handleSubmit_def threeDimes_def toProcedureCode_def or_else_def
        truthy_number_def parse_defs to_double_tenths)
  have s: "exact_sum (procedure_codes (handleSubmit sampleFormData threeDimes))
      = 10808639105689191 / 36028797018963968"
    by (simp add: threeDimes_entries exact_sum_def value_of_def)
  show ?thesis using g t s by simp
qed

text \<open>
  C1, amended. For every claim that \<open>handleSubmit\<close> submits whose procedure entries are
  exactly summable (all charges and units finite, and every product charge times units
  and every running total, in the order of the entries, a binary64 value),
  \<open>total_charge\<close> equals the sum over its procedure entries of charge times units.
\<close>

theorem total_charge_exact_sum:
  assumes "exactly_summable 0 (procedure_codes (handleSubmit fd procedures))"
  shows "Claim.total_charge (handleSubmit fd procedures) =
           Num (exact_sum (procedure_codes (handleSubmit fd procedures)))"
  using exact_fold [OF assms] by (simp add: handleSubmit_def Let_def)

theorem total_charge_exact_sum_witness:
  "exactly_summable 0 (procedure_codes (handleSubmit sampleFormData wholeRows)) \<and>
   exact_sum (procedure_codes (handleSubmit sampleFormData wholeRows)) = 3 * 135 + 2 * 500 \<and>
   Claim.total_charge (handleSubmit sampleFormData wholeRows) = Num 1405"
proof -
  have h: "exactly_summable 0 (procedure_codes (handleSubmit sampleFormData wholeRows))"
    by (simp add: wholeRows_entries is_finite_def value_of_def representable_def)
  have s: "exact_sum (procedure_codes (handleSubmit sampleFormData wholeRows)) = 1405"
    by (simp add: wholeRows_entries exact_sum_def value_of_def)
  show ?thesis
    using total_charge_exact_sum [OF h] h s by simp
qed




text \<open>
  C3 fails on the code: the diagnosis field of the sample claim set to a single comma is
  not empty, so the \<open>required\<close> attribute lets the form through, and \<open>handleSubmit\<close>
  submits a claim with no diagnosis code.
\<close>

theorem diagnosis_codes_empty_for_comma:
  "required_filled (str '','') \<and>
   Claim.diagnosis_codes
     (handleSubmit (sampleFormData\<lparr>formData.diagnosis_codes := str '',''\<rparr>) sampleProcedures)
     = []"
  by (simp add: required_filled_def diagnosis_codes_empty_iff comma_def)

section \<open>The page component and the chat widget: the claims\<close>

text \<open>
  C8. When \<open>validateClaim\<close> throws, \<open>handleValidate\<close> leaves \<open>validationResult\<close>
  null, whatever it held before, and sets an error message that is not null; when it
  returns a result, \<open>validationResult\<close> is that result and \<open>error\<close> is null.
\<close>

theorem handleValidate_outcome:
  "(validateClaim claimData = RejectedWith err \<longrightarrow>
      validationResult (handleValidate validateClaim claimData st) = None \<and>
      Home.error (handleValidate validateClaim claimData st) \<noteq> None) \<and>
   (validateClaim claimData = Fulfilled result \<longrightarrow>
      validationResult (handleValidate validateClaim claimData st) = Some result \<and>
      Home.error (handleValidate validateClaim claimData st) = None)"
  by (simp add: handleValidate_def)

theorem handleValidate_outcome_witness:
  "validationResult
     (handleValidate (\<lambda>c. RejectedWith (ErrorInstance (str ''Network Error'')))
        (handleSubmit sampleFormData invalidProcedures) staleHome) = None \<and>
   Home.error
     (handleValidate (\<lambda>c. RejectedWith (ErrorInstance (str ''Network Error'')))
        (handleSubmit sampleFormData invalidProcedures) staleHome)
     = Some (str ''Network Error'') \<and>
   validationResult
     (handleValidate (\<lambda>c. Fulfilled (str ''new result''))
        (handleSubmit sampleFormData invalidProcedures) staleHome) = Some (str ''new result'') \<and>
   Home.error
     (handleValidate (\<lambda>c. Fulfilled (str ''new result''))
        (handleSubmit sampleFormData invalidProcedures) staleHome) = None"
  using handleValidate_outcome
      [where validateClaim = "\<lambda>c. RejectedWith (ErrorInstance (str ''Network Error''))"
        and claimData = "handleSubmit sampleFormData invalidProcedures"
        and err = "ErrorInstance (str ''Network Error'')" and st = staleHome]
    handleValidate_outcome
      [where validateClaim = "\<lambda>c. Fulfilled (str ''new result'')"
        and claimData = "handleSubmit sampleFormData invalidProcedures"
        and result = "str ''new result''" and st = staleHome]
  by (simp add: handleValidate_def)

text \<open>
  C9. When \<open>handleAsk\<close> calls \<open>askQuestion\<close> (the question is not blank) and the call
  succeeds, the conversation is the old conversation followed by one entry with the
  submitted question and the returned answer, and the question field is cleared; when the
  call fails, the conversation is unchanged.
\<close>

theorem handleAsk_conversation:
  assumes "truthy_string (trim (ChatInterface.question st))"
  shows "(askQuestion claimId (ChatInterface.question st) = Fulfilled response \<longrightarrow>
            conversation (fst (handleAsk askQuestion claimId st)) =
              conversation st @
                [\<lparr>Message.question = ChatInterface.question st,
                  Message.answer = AskResponse.answer response\<rparr>] \<and>
            ChatInterface.question (fst (handleAsk askQuestion claimId st)) = []) \<and>
         (askQuestion claimId (ChatInterface.question st) = RejectedWith err \<longrightarrow>
            conversation (fst (handleAsk askQuestion claimId st)) = conversation st)"
  using assms by (simp add: handleAsk_def)

theorem handleAsk_conversation_witness:
  "truthy_string (trim (ChatInterface.question (chatState (str ''How can I fix these issues?'')))) \<and>
   conversation
     (fst (handleAsk (\<lambda>cid q. Fulfilled \<lparr>AskResponse.answer = str ''Use code 99213.''\<rparr>)
        (str ''CLM002'') (chatState (str ''How can I fix these issues?'')))) =
     [\<lparr>Message.question = str ''Why was this claim flagged?'',
       Message.answer = str ''Two issues were found.''\<rparr>,
      \<lparr>Message.question = str ''How can I fix these issues?'',
       Message.answer = str ''Use code 99213.''\<rparr>] \<and>
   ChatInterface.question
     (fst (handleAsk (\<lambda>cid q. Fulfilled \<lparr>AskResponse.answer = str ''Use code 99213.''\<rparr>)
        (str ''CLM002'') (chatState (str ''How can I fix these issues?'')))) = [] \<and>
   conversation
     (fst (handleAsk (\<lambda>cid q. RejectedWith NotAnError)
        (str ''CLM002'') (chatState (str ''How can I fix these issues?'')))) =
     conversation (chatState (str ''How can I fix these issues?''))"
proof -
  have h: "truthy_string
      (trim (ChatInterface.question (chatState (str ''How can I fix these issues?''))))"
    by (simp add: chatState_def truthy_string_def trim_def isWhiteSpace_def)
  show ?thesis
    using h
      handleAsk_conversation
        [OF h, where askQuestion = "\<lambda>cid q. Fulfilled \<lparr>AskResponse.answer = str ''Use code 99213.''\<rparr>"
          and claimId = "str ''CLM002''"
          and response = "\<lparr>AskResponse.answer = str ''Use code 99213.''\<rparr>"]
      handleAsk_conversation
        [OF h, where askQuestion = "\<lambda>cid q. RejectedWith NotAnError"
          and claimId = "str ''CLM002''" and err = NotAnError]
    by (simp add: chatState_def)
qed

text \<open>
  C10. When the question is empty or white space only, \<open>handleAsk\<close> issues no request
  and returns the component state as it was.
\<close>

theorem handleAsk_blank_question:
  assumes "whitespace_only (ChatInterface.question st)"
  shows "handleAsk askQuestion claimId st = (st, [])"
  using assms by (simp add: handleAsk_def whitespace_only_def truthy_string_def trim_empty_iff)

theorem handleAsk_blank_question_witness:
  "whitespace_only (ChatInterface.question (chatState (str '' ''))) \<and>
   handleAsk (\<lambda>cid q. Fulfilled \<lparr>AskResponse.answer = str ''Use code 99213.''\<rparr>)
     (str ''CLM002'') (chatState (str '' '')) = (chatState (str '' ''), [])"
proof -
  have h: "whitespace_only (ChatInterface.question (chatState (str '' '')))"
    by (simp add: chatState_def whitespace_only_def isWhiteSpace_def)
  show ?thesis
    using h handleAsk_blank_question [OF h] by simp
qed

section \<open>The validation core: scoring, status and aggregation\<close>

lemma severity_weight_nonneg: "0 \<le> severity_weight s"
  by (cases s) simp_all

lemma weights_sum_nonneg: "0 \<le> sum_list (map (\<lambda>f. severity_weight (severity f)) fs)"
  by (induction fs) (simp_all add: severity_weight_nonneg)

lemma riskScore_bounds: "0 \<le> riskScore saturation fs \<and> riskScore saturation fs \<le> 100"
  using weights_sum_nonneg [of fs] by (simp add: riskScore_def)

text \<open>
  Permuting the validators' outputs permutes the tagged findings; the tags of the outputs in
  registration order are strictly increasing; so sorting by the key is the same for every
  completion order, and the same as a stable sort by descending severity.
\<close>

lemma mset_concat_map_cong:
  assumes "mset xs = mset ys"
  shows "mset (concat (map f xs)) = mset (concat (map f ys))"
proof -
  have "mset (concat (map f zs)) = sum_mset (image_mset (\<lambda>z. mset (f z)) (mset zs))" for zs
    by (induction zs) simp_all
  with assms show ?thesis by simp
qed

lemma map_fst_tag_enumerate:
  "map fst (map (\<lambda>(j, f). ((i, j), f)) (enumerate n fs)) = map (Pair i) [n..<n + length fs]"
proof (induction fs arbitrary: n)
  case Nil
  then show ?case by simp
next
  case (Cons f fs)
  have "n < n + length (f # fs)" by simp
  then have "[n..<n + length (f # fs)] = n # [Suc n..<n + length (f # fs)]"
    by (rule upt_conv_Cons)
  then have "[n..<n + length (f # fs)] = n # [Suc n..<Suc n + length fs]"
    by simp
  then show ?case using Cons.IH [of "Suc n"] by simp
qed

lemma map_fst_tagFindings:
  "map fst (tagFindings (i, out)) = map (Pair i) [0..<length (findings_of out)]"
  using map_fst_tag_enumerate [of i 0 "findings_of out"] by (simp add: tagFindings_def)

lemma map_snd_tagFindings: "map snd (tagFindings a) = findings_of (snd a)"
  by (simp add: tagFindings_def case_prod_beta comp_def map_snd_enumerate)

lemma sorted_tags_of_one: "sorted (map (Pair (i::nat)) [0..<(n::nat)])"
  by (simp add: sorted_map sorted_wrt_iff_nth_less less_eq_prod_def)

lemma distinct_tags_of_one: "distinct (map (Pair (i::nat)) [0..<(n::nat)])"
  by (simp add: distinct_map inj_on_def)

lemma tag_index_in_arrivals:
  "t \<in> set (concat (map tagFindings arrivals)) \<Longrightarrow> fst (fst t) \<in> fst ` set arrivals"
  by (force simp: tagFindings_def)

lemma tags_sorted_distinct:
  assumes "sorted (map fst arrivals)" and "distinct (map fst arrivals)"
  shows "sorted (map fst (concat (map tagFindings arrivals))) \<and>
         distinct (map fst (concat (map tagFindings arrivals)))"
  using assms
proof (induction arrivals)
  case Nil
  then show ?case by simp
next
  case (Cons a arrivals)
  obtain i out where a: "a = (i, out)" by (cases a)
  let ?rest = "concat (map tagFindings arrivals)"
  from Cons.prems have later: "\<forall>k\<in>fst ` set arrivals. i < k"
    unfolding a by (auto simp: le_less)
  have cross: "i < fst tag" if "tag \<in> set (map fst ?rest)" for tag
  proof -
    from that obtain t where "t \<in> set ?rest" "tag = fst t" by auto
    then show ?thesis using tag_index_in_arrivals [of t arrivals] later by auto
  qed
  from Cons have ih: "sorted (map fst ?rest)" "distinct (map fst ?rest)" by simp_all
  have "x \<le> y \<and> x \<noteq> y"
    if "x \<in> set (map (Pair i) [0..<length (findings_of out)])" "y \<in> set (map fst ?rest)"
    for x y
  proof -
    from that(1) have "fst x = i" by auto
    moreover from that(2) have "i < fst y" by (rule cross)
    ultimately show ?thesis by (auto simp: less_eq_prod_def)
  qed
  then have apart:
    "\<forall>x\<in>set (map (Pair i) [0..<length (findings_of out)]). \<forall>y\<in>set (map fst ?rest). x \<le> y"
    "set (map (Pair i) [0..<length (findings_of out)]) \<inter> set (map fst ?rest) = {}"
    by blast+
  then have "sorted (map fst (tagFindings a) @ map fst ?rest)"
    unfolding a map_fst_tagFindings sorted_append
    using ih(1) sorted_tags_of_one by blast
  moreover from apart have "distinct (map fst (tagFindings a) @ map fst ?rest)"
    unfolding a map_fst_tagFindings distinct_append
    using ih(2) distinct_tags_of_one by blast
  ultimately show ?case by simp
qed

lemma sortKey_inj_on:
  assumes "distinct (map fst ts)"
  shows "inj_on sortKey (set ts)"
proof (rule inj_onI)
  fix x y
  assume "x \<in> set ts" "y \<in> set ts" "sortKey x = sortKey y"
  then have "fst x = fst y" by (simp add: sortKey_def prod_eq_iff)
  moreover from assms have "inj_on fst (set ts)" by (simp add: distinct_map)
  ultimately show "x = y" using \<open>x \<in> set ts\<close> \<open>y \<in> set ts\<close> by (simp add: inj_on_def)
qed

lemma sort_key_sortKey_permutation:
  assumes "mset ts' = mset ts" and "distinct (map fst ts)"
  shows "sort_key sortKey ts' = sort_key sortKey ts"
proof (rule sort_key_inj_key_eq)
  show "mset ts' = mset (sort_key sortKey ts)" using assms(1) by simp
  from assms(1) have "set ts' = set ts" by (rule mset_eq_setD)
  then show "inj_on sortKey (set ts')" using sortKey_inj_on [OF assms(2)] by simp
  show "sorted (map sortKey (sort_key sortKey ts))" by (rule sorted_sort_key)
qed


lemma sortKey_le_rank: "sortKey x \<le> sortKey y \<Longrightarrow> rankOf x \<le> rankOf y"
  by (auto simp: sortKey_def rankOf_def less_eq_prod_def)

lemma sortKey_le_same_rank: "rankOf x = rankOf y \<Longrightarrow> fst x \<le> fst y \<Longrightarrow> sortKey x \<le> sortKey y"
  by (cases x, cases y) (auto simp: sortKey_def rankOf_def less_eq_prod_def)

lemma sort_key_sortKey_stable:
  assumes "sorted (map fst ts)"
  shows "sort_key sortKey ts = sort_key rankOf ts"
proof (rule sym, rule properties_for_sort_key)
  show "mset (sort_key sortKey ts) = mset ts" by simp
  have "sorted (map sortKey (sort_key sortKey ts))" by (rule sorted_sort_key)
  then show "sorted (map rankOf (sort_key sortKey ts))"
    unfolding sorted_map by (rule sorted_wrt_mono_rel [rotated]) (rule sortKey_le_rank)
  fix k
  let ?same = "filter (\<lambda>x. rankOf k = rankOf x) ts"
  from assms have "sorted (map fst ?same)" by (rule sorted_filter)
  then have "sorted (map sortKey ?same)"
    unfolding sorted_map
    by (rule sorted_wrt_mono_rel [rotated]) (auto intro: sortKey_le_same_rank)
  then have "sort_key sortKey ?same = ?same" by (rule sort_key_id_if_sorted)
  then show "filter (\<lambda>x. rankOf k = rankOf x) (sort_key sortKey ts) = ?same"
    by (simp add: filter_sort)
qed

lemma map_snd_insort_key:
  "map snd (insort_key (\<lambda>t. h (snd t)) x xs) = insort_key h (snd x) (map snd xs)"
  by (induction xs) simp_all

lemma map_snd_sort_key: "map snd (sort_key (\<lambda>t. h (snd t)) ts) = sort_key h (map snd ts)"
  by (induction ts) (simp_all add: map_snd_insort_key)

lemma map_snd_tagged: "map snd (concat (map tagFindings arrivals)) = concat (map (\<lambda>a. findings_of (snd a)) arrivals)"
  by (induction arrivals) (simp_all add: map_snd_tagFindings)

lemma map_fst_dispatch: "map fst (dispatch validators c) = [0..<length validators]"
  by (simp add: dispatch_def)

lemma map_snd_dispatch: "map snd (dispatch validators c) = map (\<lambda>v. v c) validators"
  by (simp add: dispatch_def)

lemma aggregate_dispatch:
  "aggregate (dispatch validators c) =
     sort_key (\<lambda>f. descending_rank (severity f)) (concat (map (\<lambda>v. findings_of (v c)) validators))"
proof -
  let ?ts = "concat (map tagFindings (dispatch validators c))"
  have "sorted (map fst ?ts)"
    using tags_sorted_distinct [of "dispatch validators c"] by (simp add: map_fst_dispatch)
  then have "aggregate (dispatch validators c) = map snd (sort_key rankOf ?ts)"
    by (simp add: aggregate_def sort_key_sortKey_stable)
  also have "\<dots> = sort_key (\<lambda>f. descending_rank (severity f)) (map snd ?ts)"
    unfolding rankOf_def by (rule map_snd_sort_key)
  also have "map snd ?ts = concat (map (\<lambda>v. findings_of (v c)) validators)"
  proof -
    have "map (\<lambda>a. findings_of (snd a)) (dispatch validators c)
        = map findings_of (map snd (dispatch validators c))"
      by simp
    also have "\<dots> = map (\<lambda>v. findings_of (v c)) validators"
      unfolding map_snd_dispatch by simp
    finally show ?thesis by (simp only: map_snd_tagged)
  qed
  finally show ?thesis .
qed

lemma aggregate_permutation:
  assumes "mset arrivals = mset (dispatch validators c)"
  shows "aggregate arrivals = aggregate (dispatch validators c)"
proof -
  have "distinct (map fst (concat (map tagFindings (dispatch validators c))))"
    using tags_sorted_distinct [of "dispatch validators c"] by (simp add: map_fst_dispatch)
  moreover have "mset (concat (map tagFindings arrivals))
      = mset (concat (map tagFindings (dispatch validators c)))"
    using assms by (rule mset_concat_map_cong)
  ultimately have "sort_key sortKey (concat (map tagFindings arrivals))
      = sort_key sortKey (concat (map tagFindings (dispatch validators c)))"
    by (intro sort_key_sortKey_permutation)
  then show ?thesis
    by (simp only: aggregate_def)
qed

lemma fanIn_permutation:
  assumes "mset arrivals = mset (dispatch validators c)"
  shows "fanIn saturation cid arrivals = fanIn saturation cid (dispatch validators c)"
proof -
  from assms have "set arrivals = set (dispatch validators c)" by (rule mset_eq_setD)
  then have "list_all (\<lambda>a. snd a = None) arrivals
      = list_all (\<lambda>a. snd a = None) (dispatch validators c)"
    by (simp add: list_all_iff)
  then show ?thesis
    unfolding fanIn_def aggregate_permutation [OF assms] by simp
qed

text \<open>
  The store holds no context for an id exactly when the id was never validated, or evicted
  since.
\<close>

lemma storeAfter_snoc: "storeAfter (events @ [e]) = applyEvent (storeAfter events) e"
  by (simp add: storeAfter_def)

lemma storeAfter_None_iff: "storeAfter events cid = None \<longleftrightarrow> noContextFor cid events"
proof (induction events rule: rev_induct)
  case Nil
  then show ?case by (simp add: storeAfter_def noContextFor_def)
next
  case (snoc e events)
  show ?case
  proof (cases "eventId e = cid")
    case True
    then show ?thesis
      by (cases e) (simp_all add: storeAfter_snoc noContextFor_def)
  next
    case False
    then have "storeAfter (events @ [e]) cid = storeAfter events cid"
      by (cases e) (auto simp: storeAfter_snoc)
    moreover have "noContextFor cid (events @ [e]) = noContextFor cid events"
      using False by (simp add: noContextFor_def)
    ultimately show ?thesis using snoc.IH by simp
  qed
qed

text \<open>The sample validation, evaluated.\<close>

lemma sample_dispatch:
  "dispatch sampleValidators c =
     [(0, Some [mismatchFinding]), (1, None), (2, Some [modifierFinding]),
      (3, Some [demographicFinding]), (4, Some [costFinding])]"
  by (simp add: dispatch_def sampleValidators_def upt_rec)

lemma sample_ranks:
  "descending_rank (severity mismatchFinding) = 1"
  "descending_rank (severity demographicFinding) = 1"
  "descending_rank (severity costFinding) = 2"
  "descending_rank (severity modifierFinding) = 3"
  by (simp_all add: mismatchFinding_def demographicFinding_def costFinding_def
      modifierFinding_def)

lemma sample_aggregate_rev:
  "aggregate (rev (dispatch sampleValidators c)) =
     [mismatchFinding, demographicFinding, costFinding, modifierFinding]"
  by (simp add: sample_dispatch aggregate_def tagFindings_def findings_of_def sortKey_def
      sample_ranks less_eq_prod_def)

lemma sample_validate: "validate sampleSaturation sampleValidators sampleClaim = Inr sampleResult"
  by (simp add: validate_def fanIn_def sample_dispatch aggregate_def tagFindings_def
      findings_of_def sortKey_def sample_ranks less_eq_prod_def Let_def riskScore_def
      overallStatus_def totalCostImpact_def sampleSaturation_def sampleResult_def
      sampleClaim_def handleSubmit_def sampleFormData_def)
    (simp add: mismatchFinding_def demographicFinding_def costFinding_def modifierFinding_def)

lemma sample_noContext:
  "noContextFor (str ''CLM001'') sampleEvents" "noContextFor (str ''CLM002'') sampleEvents"
  by (simp_all add: noContextFor_def sampleEvents_def)

text \<open>
  Two remarks on the repository's README, which prints sample output of the back end: with
  the specification's weights a single finding of high severity scores 25 plus the
  saturation term for no finding beyond the third (the README's first sample shows one such
  finding and a risk score of 85), and a risk score of 100 is always \<open>Rejected\<close> (the
  README's second sample shows the status "flagged" at a risk score of 100).
\<close>

lemma riskScore_one_high: "severity f = High \<Longrightarrow> riskScore saturation [f] = min 100 (25 + int (saturation 0))"
  by (simp add: riskScore_def)

lemma overallStatus_at_100: "overallStatus 100 fs = Rejected"
  by (simp add: overallStatus_def)

section \<open>The validation core: the claims\<close>

text \<open>
  C4. Whenever \<open>validate\<close> produces a result, its risk score lies between 0 and 100 and is
  the minimum of 100 and the sum of the severity weights of the findings plus the
  saturation term for the findings beyond the third.
\<close>

theorem validate_risk_score:
  assumes "validate saturation validators c = Inr r"
  shows "0 \<le> risk_score r \<and> risk_score r \<le> 100 \<and>
         risk_score r =
           min 100 (sum_list (map (\<lambda>f. severity_weight (severity f)) (issues r))
                    + int (saturation (length (issues r) - 3)))"
proof -
  from assms have "risk_score r = riskScore saturation (issues r)"
    by (auto simp: validate_def fanIn_def Let_def split: if_splits)
  then show ?thesis
    using riskScore_bounds [of saturation "issues r"] by (simp add: riskScore_def)
qed

theorem validate_risk_score_witness:
  "validate sampleSaturation sampleValidators sampleClaim = Inr sampleResult \<and>
   0 \<le> risk_score sampleResult \<and> risk_score sampleResult \<le> 100 \<and>
   risk_score sampleResult = 72"
  using validate_risk_score [OF sample_validate] sample_validate
  by (simp add: sampleResult_def)

text \<open>
  C5. Whenever \<open>validate\<close> produces a result, its status is \<open>Rejected\<close> exactly when
  some finding is critical or the score is at least 90; otherwise \<open>Flagged\<close> exactly when
  the score is at least 20; otherwise \<open>Passed\<close>.
\<close>

theorem validate_overall_status:
  assumes "validate saturation validators c = Inr r"
  shows "(overall_status r = Rejected \<longleftrightarrow>
            list_ex (\<lambda>f. severity f = Critical) (issues r) \<or> 90 \<le> risk_score r) \<and>
         (overall_status r = Flagged \<longleftrightarrow>
            \<not> (list_ex (\<lambda>f. severity f = Critical) (issues r) \<or> 90 \<le> risk_score r) \<and>
            20 \<le> risk_score r) \<and>
         (overall_status r = Passed \<longleftrightarrow>
            \<not> (list_ex (\<lambda>f. severity f = Critical) (issues r) \<or> 90 \<le> risk_score r) \<and>
            \<not> 20 \<le> risk_score r)"
proof -
  from assms have "overall_status r = overallStatus (risk_score r) (issues r)"
    by (auto simp: validate_def fanIn_def Let_def split: if_splits)
  then show ?thesis
    by (simp add: overallStatus_def)
qed

theorem validate_overall_status_witness:
  "validate sampleSaturation sampleValidators sampleClaim = Inr sampleResult \<and>
   overall_status sampleResult = Flagged \<and>
   \<not> list_ex (\<lambda>f. severity f = Critical) (issues sampleResult) \<and>
   \<not> 90 \<le> risk_score sampleResult \<and> 20 \<le> risk_score sampleResult"
  using validate_overall_status [OF sample_validate] sample_validate
  by (simp add: sampleResult_def mismatchFinding_def demographicFinding_def costFinding_def
      modifierFinding_def)

text \<open>
  C6. Whatever the order in which the validators complete, the fan-in gives the result of
  \<open>validate\<close>, so two runs on the same claim give the same list of findings in the same
  order; and that list is the findings of the validators, in registration order and in
  the order of each validator's output, sorted stably by descending severity.
\<close>

theorem aggregation_order_deterministic:
  assumes "mset arrivals1 = mset (dispatch validators c)"
    and "mset arrivals2 = mset (dispatch validators c)"
  shows "fanIn saturation (Claim.claim_id c) arrivals1 = fanIn saturation (Claim.claim_id c) arrivals2 \<and>
         fanIn saturation (Claim.claim_id c) arrivals1 = validate saturation validators c \<and>
         aggregate arrivals1 =
           sort_key (\<lambda>f. descending_rank (severity f))
             (concat (map (\<lambda>v. findings_of (v c)) validators))"
  using fanIn_permutation [OF assms(1)] fanIn_permutation [OF assms(2)]
    aggregate_permutation [OF assms(1)] aggregate_dispatch [of validators c]
  by (simp add: validate_def)

theorem aggregation_order_deterministic_witness:
  "mset (rev (dispatch sampleValidators sampleClaim)) = mset (dispatch sampleValidators sampleClaim) \<and>
   fanIn sampleSaturation (Claim.claim_id sampleClaim) (rev (dispatch sampleValidators sampleClaim))
     = Inr sampleResult \<and>
   aggregate (rev (dispatch sampleValidators sampleClaim))
     = [mismatchFinding, demographicFinding, costFinding, modifierFinding]"
proof -
  have h1: "mset (rev (dispatch sampleValidators sampleClaim))
      = mset (dispatch sampleValidators sampleClaim)"
    by simp
  have h2: "mset (dispatch sampleValidators sampleClaim)
      = mset (dispatch sampleValidators sampleClaim)"
    by simp
  show ?thesis
    using aggregation_order_deterministic [OF h1 h2, of sampleSaturation] sample_validate
      sample_aggregate_rev [of sampleClaim]
    by (simp add: validate_def)
qed

text \<open>
  C7. For a claim id that was never validated, or whose context was evicted since,
  \<open>ask\<close> fails with \<open>NotFound\<close>, and so not with \<open>InternalError\<close>.
\<close>

theorem ask_without_context:
  assumes "noContextFor claimId events"
  shows "ask (storeAfter events) llm claimId q = Inl NotFound \<and>
         ask (storeAfter events) llm claimId q \<noteq> Inl InternalError"
  using assms by (simp add: ask_def storeAfter_None_iff [symmetric])

theorem ask_without_context_witness:
  "noContextFor (str ''CLM001'') sampleEvents \<and>
   ask (storeAfter sampleEvents) sampleLlm (str ''CLM001'') (str ''Why was this claim flagged?'')
     = Inl NotFound \<and>
   noContextFor (str ''CLM002'') sampleEvents \<and>
   ask (storeAfter sampleEvents) sampleLlm (str ''CLM002'') (str ''Why was this claim flagged?'')
     = Inl NotFound"
  using ask_without_context [OF sample_noContext(1), of sampleLlm "str ''Why was this claim flagged?''"]
    ask_without_context [OF sample_noContext(2), of sampleLlm "str ''Why was this claim flagged?''"]
    sample_noContext
  by simp

end
